theory Spec2Isabelle
  imports Main
begin

section \<open>JavaScript values\<close>

text \<open>
  The values \<open>JSON.parse\<close> produces and the code of \<open>scripts/modules/ai-services.js\<close>
  manipulates. Numbers are the integers plus \<open>NaN\<close> (the only non-integer the code itself
  can create, through \<open>parseInt\<close>); ids and counts are assumed to stay in the range where
  a double is exact. An array carries, besides its elements, the named properties that the
  code may attach to it (an array is an object in JavaScript). An object is an association
  list in insertion order; the first binding of a key is the live one. Strings are byte
  sequences (UTF-8); every index into a string counts bytes.
\<close>

datatype jsval =
    JUndefined
  | JNull
  | JBool bool
  | JNum int
  | JNaN
  | JStr string
  | JArr "jsval list" "(string \<times> jsval) list"
  | JObj "(string \<times> jsval) list"

text \<open>Exceptions raised inside the \<open>try\<close> blocks of the two parsers.\<close>

datatype jsexn = Error string | SyntaxError | TypeError

fun truthy :: "jsval \<Rightarrow> bool" where
  "truthy JUndefined = False"
| "truthy JNull = False"
| "truthy (JBool b) = b"
| "truthy (JNum n) = (n \<noteq> 0)"
| "truthy JNaN = False"
| "truthy (JStr s) = (s \<noteq> [])"
| "truthy (JArr xs ps) = True"
| "truthy (JObj kvs) = True"

fun nullish :: "jsval \<Rightarrow> bool" where
  "nullish JUndefined = True"
| "nullish JNull = True"
| "nullish v = False"

text \<open>Values whose properties can be assigned: objects and arrays.\<close>

fun isObject :: "jsval \<Rightarrow> bool" where
  "isObject (JObj kvs) = True"
| "isObject (JArr xs ps) = True"
| "isObject v = False"

fun isArray :: "jsval \<Rightarrow> bool" where
  "isArray (JArr xs ps) = True"
| "isArray v = False"

text \<open>
  \<open>v.k\<close> for the property names the code reads (\<open>id\<close>, \<open>dependencies\<close>, \<open>title\<close>, \<open>tasks\<close>,
  \<open>metadata\<close>, ...): none of them is \<open>length\<close>, an array index or a property of a
  prototype, so a primitive has none of them and an array has the ones attached to it.
  Reading a property of \<open>null\<close> or \<open>undefined\<close> throws; the callers test \<open>nullish\<close> first.
\<close>

fun getProp :: "jsval \<Rightarrow> string \<Rightarrow> jsval" where
  "getProp (JObj kvs) k = (case map_of kvs k of None \<Rightarrow> JUndefined | Some v \<Rightarrow> v)"
| "getProp (JArr xs ps) k = (case map_of ps k of None \<Rightarrow> JUndefined | Some v \<Rightarrow> v)"
| "getProp v k = JUndefined"

fun updateKey :: "string \<Rightarrow> jsval \<Rightarrow> (string \<times> jsval) list \<Rightarrow> (string \<times> jsval) list" where
  "updateKey k v [] = [(k, v)]"
| "updateKey k v (p # ps) = (if fst p = k then (k, v) # ps else p # updateKey k v ps)"

text \<open>
  \<open>v.k = x\<close> on an object or an array. The module is an ES module, hence strict code: the
  same assignment on a primitive throws a TypeError, which the callers model by testing
  \<open>isObject\<close> first.
\<close>

fun setProp :: "jsval \<Rightarrow> string \<Rightarrow> jsval \<Rightarrow> jsval" where
  "setProp (JObj kvs) k x = JObj (updateKey k x kvs)"
| "setProp (JArr xs ps) k x = JArr xs (updateKey k x ps)"
| "setProp v k x = v"

section \<open>Strings\<close>

fun indexOfFrom :: "char \<Rightarrow> string \<Rightarrow> int \<Rightarrow> int" where
  "indexOfFrom c [] i = -1"
| "indexOfFrom c (x # xs) i = (if x = c then i else indexOfFrom c xs (i + 1))"

definition indexOf :: "string \<Rightarrow> char \<Rightarrow> int" where
  "indexOf text c = indexOfFrom c text 0"

fun lastIndexOfFrom :: "char \<Rightarrow> string \<Rightarrow> int \<Rightarrow> int" where
  "lastIndexOfFrom c [] i = -1"
| "lastIndexOfFrom c (x # xs) i =
     (let r = lastIndexOfFrom c xs (i + 1)
      in if r \<noteq> -1 then r else if x = c then i else -1)"

definition lastIndexOf :: "string \<Rightarrow> char \<Rightarrow> int" where
  "lastIndexOf text c = lastIndexOfFrom c text 0"

text \<open>
  \<open>text.substring(a, b)\<close>: both indices are clamped to \<open>0 .. length\<close> and swapped when the
  first is the larger.
\<close>

definition substring :: "string \<Rightarrow> int \<Rightarrow> int \<Rightarrow> string" where
  "substring text a b =
     (let n = int (length text);
          a' = max 0 (min a n);
          b' = max 0 (min b n);
          lo = min a' b';
          hi = max a' b'
      in take (nat (hi - lo)) (drop (nat lo) text))"

fun startsWith :: "string \<Rightarrow> string \<Rightarrow> bool" where
  "startsWith s [] = True"
| "startsWith [] (p # ps) = False"
| "startsWith (c # cs) (p # ps) = (c = p \<and> startsWith cs ps)"

text \<open>\<open>s.includes(p)\<close>.\<close>

fun str_includes :: "string \<Rightarrow> string \<Rightarrow> bool" where
  "str_includes [] p = (p = [])"
| "str_includes (c # cs) p = (startsWith (c # cs) p \<or> str_includes cs p)"

text \<open>\<open>toLowerCase\<close> on the ASCII letters, the only ones the compared words contain.\<close>

definition toLowerChar :: "char \<Rightarrow> char" where
  "toLowerChar c =
     (if (65::nat) \<le> of_char c \<and> of_char c \<le> (90::nat)
      then char_of (of_char c + (32::nat)) else c)"

definition toLowerCase :: "string \<Rightarrow> string" where
  "toLowerCase s = map toLowerChar s"

definition isDigit :: "char \<Rightarrow> bool" where
  "isDigit c = ((48::nat) \<le> of_char c \<and> of_char c \<le> (57::nat))"

definition isWhiteSpace :: "char \<Rightarrow> bool" where
  "isWhiteSpace c = (of_char c \<in> {9, 10, 11, 12, 13, 32 :: nat})"

fun digitsValue :: "int \<Rightarrow> string \<Rightarrow> int" where
  "digitsValue acc [] = acc"
| "digitsValue acc (d # ds) = digitsValue (acc * 10 + (int (of_char d) - 48)) ds"

text \<open>
  \<open>parseInt(s, 10)\<close>: leading white space is skipped, one sign is read, then the longest
  run of decimal digits; no digit at all gives \<open>NaN\<close>. (White space outside ASCII is not
  modelled.)
\<close>

definition parseInt10 :: "string \<Rightarrow> jsval" where
  "parseInt10 s =
     (let t = dropWhile isWhiteSpace s;
          neg = (case t of [] \<Rightarrow> False | c # cs \<Rightarrow> c = CHR ''-'');
          u = (case t of [] \<Rightarrow> []
               | c # cs \<Rightarrow> if c = CHR ''+'' \<or> c = CHR ''-'' then cs else t);
          ds = takeWhile isDigit u
      in if ds = [] then JNaN
         else JNum ((if neg then -1 else 1) * digitsValue 0 ds))"

text \<open>The decimal rendering of an integer inside a template literal.\<close>

fun showNat :: "nat \<Rightarrow> string" where
  "showNat n =
     (if n < 10 then [char_of (48 + n)]
      else showNat (n div 10) @ [char_of (48 + n mod 10)])"

declare showNat.simps [simp del]

definition showInt :: "int \<Rightarrow> string" where
  "showInt i = (if i < 0 then CHR ''-'' # showNat (nat (- i)) else showNat (nat i))"

section \<open>Logging, configuration and the outside world\<close>

datatype level = Debug | Info | Warn | Err | ConsoleError

text \<open>
  A call of \<open>log\<close> is recorded as its level, the text of the message as the source writes it
  (holes of a template literal left in place) and the values that fill the holes or follow
  as further arguments. \<open>console.error\<close> is recorded at its own level.
\<close>

record jserror =
  message :: string
  details :: "string option option"

datatype logarg = LVal jsval | LExn jsexn | LErr jserror

type_synonym logEntry = "level \<times> string \<times> logarg list"

text \<open>
  What the module takes from outside: \<open>JSON.parse\<close> (\<open>None\<close> when it throws a SyntaxError),
  \<open>CONFIG.useChinese\<close> and \<open>CONFIG.debug\<close>, the date \<open>new Date().toISOString().split('T')[0]\<close>,
  and the provider \<open>geminiModel.generateContent\<close>, which answers the \<open>i\<close>-th request of a run
  (counted from 0), given its prompt, with the response text or with an error.
\<close>

record env =
  jsonParse :: "string \<Rightarrow> jsval option"
  useChinese :: bool
  debug :: bool
  today :: string
  generateContent :: "nat \<Rightarrow> string \<Rightarrow> jserror + string"

section \<open>Subtask expansion: \<open>parseSubtasksFromText\<close>\<close>

text \<open>\<open>typeof dep === 'string' ? parseInt(dep, 10) : dep\<close>\<close>

fun coerceDep :: "jsval \<Rightarrow> jsval" where
  "coerceDep (JStr s) = parseInt10 s"
| "coerceDep v = v"

text \<open>
  One of the four blocks \<open>if (subtask.f && !subtask.fTrans) { log(...); subtask.fTrans = "" }\<close>.
\<close>

definition ensureTrans ::
    "string \<Rightarrow> string \<Rightarrow> jsval \<times> logEntry list \<Rightarrow> jsval \<times> logEntry list" where
  "ensureTrans field fieldTrans sl =
     (case sl of (s, l) \<Rightarrow>
        if truthy (getProp s field) \<and> \<not> truthy (getProp s fieldTrans)
        then (setProp s fieldTrans (JStr []),
              l @ [(Warn, ''Missing '' @ fieldTrans @ '' for subtask ${subtask.id}, using empty value'',
                    [LVal (getProp s ''id'')])])
        else (s, l))"

text \<open>
  The callback of \<open>subtasks.map\<close>. \<open>subtask.id\<close> on \<open>null\<close> throws at once; on another
  primitive it reads \<open>undefined\<close>, the correction is logged and the assignment throws.
\<close>

definition normalizeSubtask ::
    "env \<Rightarrow> jsval \<Rightarrow> int \<Rightarrow> jsval \<Rightarrow> nat \<Rightarrow> (jsexn + jsval) \<times> logEntry list" where
  "normalizeSubtask E parentTaskId startId subtask index =
     (if nullish subtask then (Inl TypeError, [])
      else
        let newId = startId + int index;
            wrongId = (getProp subtask ''id'' \<noteq> JNum newId);
            l1 = (if wrongId
                  then [(Warn, ''Correcting subtask ID from ${subtask.id} to ${startId + index}'',
                         [LVal (getProp subtask ''id''), LVal (JNum newId)])]
                  else [])
        in if \<not> isObject subtask then (Inl TypeError, l1)
           else
             let s1 = (if wrongId then setProp subtask ''id'' (JNum newId) else subtask);
                 s2 = setProp s1 ''dependencies''
                        (case getProp s1 ''dependencies'' of
                           JArr ds ps \<Rightarrow> JArr (map coerceDep ds) []
                         | _ \<Rightarrow> JArr [] []);
                 s3 = setProp s2 ''status'' (JStr ''pending'');
                 s4 = setProp s3 ''parentTaskId'' parentTaskId;
                 sl = (if useChinese E
                       then ensureTrans ''testStrategy'' ''testStrategyTrans''
                              (ensureTrans ''details'' ''detailsTrans''
                                (ensureTrans ''description'' ''descriptionTrans''
                                  (ensureTrans ''title'' ''titleTrans'' (s4, []))))
                       else (s4, []))
             in (Inr (fst sl), l1 @ snd sl))"

text \<open>
  \<open>subtasks.map((subtask, index) => ...)\<close>: the first callback that throws ends the loop;
  what was logged before stays logged.
\<close>

fun mapSubtasks ::
    "env \<Rightarrow> jsval \<Rightarrow> int \<Rightarrow> nat \<Rightarrow> jsval list \<Rightarrow> (jsexn + jsval list) \<times> logEntry list" where
  "mapSubtasks E parentTaskId startId index [] = (Inr [], [])"
| "mapSubtasks E parentTaskId startId index (x # xs) =
     (case normalizeSubtask E parentTaskId startId x index of
        (Inl e, l) \<Rightarrow> (Inl e, l)
      | (Inr y, l) \<Rightarrow>
          (case mapSubtasks E parentTaskId startId (Suc index) xs of
             (Inl e, l') \<Rightarrow> (Inl e, l @ l')
           | (Inr ys, l') \<Rightarrow> (Inr (y # ys), l @ l')))"

text \<open>The body of the \<open>try\<close> block.\<close>

definition parseSubtasksTry ::
    "env \<Rightarrow> string \<Rightarrow> int \<Rightarrow> int \<Rightarrow> jsval \<Rightarrow> (jsexn + jsval) \<times> logEntry list" where
  "parseSubtasksTry E text startId expectedCount parentTaskId =
     (let jsonStartIndex = indexOf text (CHR ''['');
          jsonEndIndex = lastIndexOf text (CHR '']'')
      in if jsonStartIndex = -1 \<or> jsonEndIndex = -1 \<or> jsonEndIndex < jsonStartIndex
         then (Inl (Error ''Could not locate valid JSON array in the response''), [])
         else
           (case jsonParse E (substring text jsonStartIndex (jsonEndIndex + 1)) of
              None \<Rightarrow> (Inl SyntaxError, [])
            | Some subtasks \<Rightarrow>
                (case subtasks of
                   JArr xs ps \<Rightarrow>
                     let l0 = (if int (length xs) \<noteq> expectedCount
                               then [(Warn, ''Expected ${expectedCount} subtasks, but parsed ${subtasks.length}'',
                                      [LVal (JNum expectedCount), LVal (JNum (int (length xs)))])]
                               else [])
                     in (case mapSubtasks E parentTaskId startId 0 xs of
                           (Inl e, l) \<Rightarrow> (Inl e, l0 @ l)
                         | (Inr ys, l) \<Rightarrow> (Inr (JArr ys []), l0 @ l))
                 | _ \<Rightarrow> (Inl (Error ''Parsed content is not an array''), []))))"

definition zhFallbackTitle :: string where
  "zhFallbackTitle =
     [CHR 0xE8, CHR 0x87, CHR 0xAA, CHR 0xE5, CHR 0x8A, CHR 0xA8, CHR 0xE7, CHR 0x94, CHR 0x9F,
      CHR 0xE6, CHR 0x88, CHR 0x90, CHR 0xE7, CHR 0x9A, CHR 0x84, CHR 0xE5, CHR 0xAD, CHR 0x90,
      CHR 0xE4, CHR 0xBB, CHR 0xBB, CHR 0xE5, CHR 0x8A, CHR 0xA1]"

definition zhFallbackDescription :: string where
  "zhFallbackDescription =
     [CHR 0xE8, CHR 0x87, CHR 0xAA, CHR 0xE5, CHR 0x8A, CHR 0xA8, CHR 0xE7, CHR 0x94, CHR 0x9F,
      CHR 0xE6, CHR 0x88, CHR 0x90, CHR 0xE7, CHR 0x9A, CHR 0x84, CHR 0xE5, CHR 0x90, CHR 0x8E,
      CHR 0xE5, CHR 0xA4, CHR 0x87, CHR 0xE5, CHR 0xAD, CHR 0x90, CHR 0xE4, CHR 0xBB, CHR 0xBB,
      CHR 0xE5, CHR 0x8A, CHR 0xA1]"

definition zhFallbackDetails :: string where
  "zhFallbackDetails =
     [CHR 0xE8, CHR 0xBF, CHR 0x99, CHR 0xE6, CHR 0x98, CHR 0xAF, CHR 0xE5, CHR 0x9B, CHR 0xA0,
      CHR 0xE4, CHR 0xB8, CHR 0xBA, CHR 0xE8, CHR 0xA7, CHR 0xA3, CHR 0xE6, CHR 0x9E, CHR 0x90,
      CHR 0xE5, CHR 0xA4, CHR 0xB1, CHR 0xE8, CHR 0xB4, CHR 0xA5, CHR 0xE8, CHR 0x80, CHR 0x8C,
      CHR 0xE5, CHR 0x88, CHR 0x9B, CHR 0xE5, CHR 0xBB, CHR 0xBA, CHR 0xE7, CHR 0x9A, CHR 0x84,
      CHR 0xE5, CHR 0x90, CHR 0x8E, CHR 0xE5, CHR 0xA4, CHR 0x87, CHR 0xE5, CHR 0xAD, CHR 0x90,
      CHR 0xE4, CHR 0xBB, CHR 0xBB, CHR 0xE5, CHR 0x8A, CHR 0xA1, CHR 0xE3, CHR 0x80, CHR 0x82,
      CHR 0xE8, CHR 0xAF, CHR 0xB7, CHR 0xE4, CHR 0xBD, CHR 0xBF, CHR 0xE7, CHR 0x94, CHR 0xA8,
      CHR 0xE7, CHR 0x9C, CHR 0x9F, CHR 0xE5, CHR 0xAE, CHR 0x9E, CHR 0xE7, CHR 0xBB, CHR 0x86,
      CHR 0xE8, CHR 0x8A, CHR 0x82, CHR 0xE8, CHR 0xBF, CHR 0x9B, CHR 0xE8, CHR 0xA1, CHR 0x8C,
      CHR 0xE6, CHR 0x9B, CHR 0xB4, CHR 0xE6, CHR 0x96, CHR 0xB0, CHR 0xE3, CHR 0x80, CHR 0x82]"

text \<open>The object built by one round of the fallback loop of \<open>parseSubtasksFromText\<close>.\<close>

definition fallbackSubtask :: "env \<Rightarrow> int \<Rightarrow> jsval \<Rightarrow> nat \<Rightarrow> jsval" where
  "fallbackSubtask E startId parentTaskId i =
     JObj ([(''id'', JNum (startId + int i)),
            (''title'', JStr (''Subtask '' @ showInt (startId + int i))),
            (''description'', JStr ''Auto-generated fallback subtask''),
            (''dependencies'', JArr [] []),
            (''details'', JStr ''This is a fallback subtask created because parsing failed. Please update with real details.''),
            (''status'', JStr ''pending''),
            (''parentTaskId'', parentTaskId)]
           @ (if useChinese E
              then [(''titleTrans'', JStr zhFallbackTitle),
                    (''descriptionTrans'', JStr zhFallbackDescription),
                    (''detailsTrans'', JStr zhFallbackDetails),
                    (''testStrategyTrans'', JStr [])]
              else []))"

text \<open>\<open>for (let i = 0; i < expectedCount; i++)\<close>\<close>

definition fallbackSubtasks :: "env \<Rightarrow> int \<Rightarrow> int \<Rightarrow> jsval \<Rightarrow> jsval list" where
  "fallbackSubtasks E startId expectedCount parentTaskId =
     map (fallbackSubtask E startId parentTaskId) [0 ..< nat expectedCount]"

text \<open>
  The whole function: the \<open>catch\<close> block turns every exception of the \<open>try\<close> block into the
  fallback list, so the function always returns an array.
\<close>

definition parseSubtasksFromText ::
    "env \<Rightarrow> string \<Rightarrow> int \<Rightarrow> int \<Rightarrow> jsval \<Rightarrow> jsval \<times> logEntry list" where
  "parseSubtasksFromText E text startId expectedCount parentTaskId =
     (case parseSubtasksTry E text startId expectedCount parentTaskId of
        (Inr subtasks, l) \<Rightarrow> (subtasks, l)
      | (Inl error, l) \<Rightarrow>
          (JArr (fallbackSubtasks E startId expectedCount parentTaskId) [],
           l @ [(Err, ''Error parsing subtasks: ${error.message}'', [LExn error]),
                (Warn, ''Creating fallback subtasks'', [])]))"

text \<open>
  \<open>generateSubtasks\<close> and \<open>generateSubtasksWithPerplexity\<close> end alike: one request to the
  provider, whose error is rethrown unchanged and whose text goes to
  \<open>parseSubtasksFromText\<close> with \<open>task.id\<close> as the parent. The prompt only matters through
  the provider's answer, here the argument \<open>response\<close>; \<open>task\<close> is an object, and the two
  log lines of these functions are left out.
\<close>

definition generateSubtasks ::
    "env \<Rightarrow> jserror + string \<Rightarrow> jsval \<Rightarrow> int \<Rightarrow> int \<Rightarrow> jserror + jsval \<times> logEntry list" where
  "generateSubtasks E response task numSubtasks nextSubtaskId =
     (case response of
        Inl error \<Rightarrow> Inl error
      | Inr responseText \<Rightarrow>
          Inr (parseSubtasksFromText E responseText nextSubtaskId numSubtasks (getProp task ''id'')))"

section \<open>Document decomposition: \<open>callGemini\<close>, \<open>handleRequest\<close>, \<open>processClaudeResponse\<close>\<close>

text \<open>
  An error object: its \<open>message\<close>, and \<open>details\<close>: \<open>None\<close> when \<open>error.details\<close> is absent,
  \<open>Some c\<close> when it is there, \<open>c\<close> being its \<open>code\<close> if it has one. The errors the module
  itself throws (\<open>new Error(userMessage)\<close>) have no details.
\<close>

definition newError :: "string \<Rightarrow> jserror" where
  "newError msg = \<lparr>message = msg, details = None\<rparr>"

definition handleGeminiError :: "jserror \<Rightarrow> string" where
  "handleGeminiError error =
     (case details error of
        Some code \<Rightarrow>
          if code = Some ''RESOURCE_EXHAUSTED''
          then ''Gemini quota has been exhausted. Please check your API quota and try again later.''
          else if code = Some ''PERMISSION_DENIED''
          then ''Permission denied accessing Gemini API. Please check your API key and permissions.''
          else if code = Some ''INVALID_ARGUMENT''
          then ''There was an issue with the request format. If this persists, please report it as a bug.''
          else ''Gemini API error: '' @ message error
      | None \<Rightarrow>
          if str_includes (toLowerCase (message error)) ''timeout''
          then ''The request to Gemini timed out. Please try again.''
          else if str_includes (toLowerCase (message error)) ''network''
          then ''There was a network error connecting to Gemini. Please check your internet connection and try again.''
          else ''Error communicating with Gemini: '' @ message error)"

text \<open>
  What a run leaves behind: the prompts sent to the provider, oldest first (so the next
  request is number \<open>length (calls w)\<close>), the waits of \<open>setTimeout\<close> in milliseconds, and
  the log. The loading indicator and the dots animation are left out.
\<close>

record world =
  calls :: "string list"
  sleeps :: "int list"
  logs :: "logEntry list"

definition addLog :: "logEntry \<Rightarrow> world \<Rightarrow> world" where
  "addLog e w = w\<lparr>logs := logs w @ [e]\<rparr>"

definition addLogs :: "logEntry list \<Rightarrow> world \<Rightarrow> world" where
  "addLogs l w = w\<lparr>logs := logs w @ l\<rparr>"

text \<open>
  How a call ends: with a value, with an exception, or not within the given number of
  nested calls (the fuel of the three functions below).
\<close>

datatype outcome = Returned jsval | Thrown jserror | OutOfFuel

text \<open>\<open>knowledgeBase ? ... : ...\<close>: \<open>null\<close> and the empty string are falsy.\<close>

definition present :: "string option \<Rightarrow> bool" where
  "present knowledgeBase = (case knowledgeBase of None \<Rightarrow> False | Some k \<Rightarrow> k \<noteq> [])"

definition taskStructure :: string where
  \<open>taskStructure =
      ''{\<newline>'' @
      ''  "id": number,\<newline>'' @
      ''  "title": string,\<newline>'' @
      ''  "titleTrans": string (Chinese translation of title),\<newline>'' @
      ''  "description": string,\<newline>'' @
      ''  "descriptionTrans": string (Chinese translation of description),\<newline>'' @
      ''  "status": "pending",\<newline>'' @
      ''  "dependencies": number[] (IDs of tasks this depends on),\<newline>'' @
      ''  "priority": "high" | "medium" | "low",\<newline>'' @
      ''  "details": string (implementation details),\<newline>'' @
      ''  "detailsTrans": string (Chinese translation of details),\<newline>'' @
      ''  "testStrategy": string (validation approach),\<newline>'' @
      ''  "testStrategyTrans": string (Chinese translation of test strategy)\<newline>'' @
      ''}''\<close>

definition translationGuidelines :: "env \<Rightarrow> string" where
  \<open>translationGuidelines E =
     (if useChinese E
      then ''\<newline>'' @
           ''11. Provide Chinese translations for each task's title, description, details, and test strategy fields\<newline>'' @
           ''12. The titleTrans field should contain a natural, fluent Chinese translation of the English title\<newline>'' @
           ''13. The descriptionTrans field should contain a natural, fluent Chinese translation of the English description\<newline>'' @
           ''14. The detailsTrans field should contain a natural, fluent Chinese translation of the English details\<newline>'' @
           ''15. The testStrategyTrans field should contain a natural, fluent Chinese translation of the English test strategy\<newline>'' @
           ''16. Keep all original English content intact in the primary fields (title, description, details, testStrategy)\<newline>'' @
           ''17. Ensure all technical terms are correctly translated''
      else [])\<close>

definition systemPrompt :: "env \<Rightarrow> int \<Rightarrow> string \<Rightarrow> string option \<Rightarrow> string" where
  \<open>systemPrompt E numTasks prdPath knowledgeBase =
      ''You are an AI assistant helping to break down a Product Requirements Document (PRD) into a set of sequential development tasks.\<newline>'' @
      ''Your goal is to create '' @
      showInt numTasks @
      '' well-structured, actionable development tasks based on the PRD provided.\<newline>'' @
      ''\<newline>'' @
      ''Each task should follow this JSON structure:\<newline>'' @
      taskStructure @
      ''\<newline>'' @
      ''\<newline>'' @
      ''Guidelines:\<newline>'' @
      ''1. Create exactly '' @
      showInt numTasks @
      '' tasks, numbered from 1 to '' @
      showInt numTasks @
      ''\<newline>'' @
      ''2. Each task should be atomic and focused on a single responsibility\<newline>'' @
      ''3. Order tasks logically - consider dependencies and implementation sequence\<newline>'' @
      ''4. Early tasks should focus on setup, core functionality first, then advanced features\<newline>'' @
      ''5. Include clear validation/testing approach for each task\<newline>'' @
      ''6. Set appropriate dependency IDs (a task can only depend on tasks with lower IDs)\<newline>'' @
      ''7. Assign priority (high/medium/low) based on criticality and dependency order\<newline>'' @
      ''8. Include detailed implementation guidance in the "details" field'' @
      (if present knowledgeBase
       then ''\<newline>'' @
            ''9. USE THE PROVIDED BUSINESS KNOWLEDGE AS A CRITICAL REFERENCE for terminology, domain concepts, and implementation requirements\<newline>'' @
            ''10. Ensure all tasks align with the business knowledge context and follow domain-specific patterns''
       else []) @
      translationGuidelines E @
      ''\<newline>'' @
      ''\<newline>'' @
      ''Expected output format:\<newline>'' @
      ''{\<newline>'' @
      ''  "tasks": [\<newline>'' @
      ''    {\<newline>'' @
      ''      "id": 1,\<newline>'' @
      ''      "title": "Setup Project Repository",\<newline>'' @
      ''      "description": "...",\<newline>'' @
      ''      ...\<newline>'' @
      ''    },\<newline>'' @
      ''    ...\<newline>'' @
      ''  ],\<newline>'' @
      ''  "metadata": {\<newline>'' @
      ''    "projectName": "PRD Implementation",\<newline>'' @
      ''    "totalTasks": '' @
      showInt numTasks @
      '',\<newline>'' @
      ''    "sourceFile": "'' @
      prdPath @
      ''",\<newline>'' @
      ''    "generatedAt": "YYYY-MM-DD"\<newline>'' @
      ''  }\<newline>'' @
      ''}\<newline>'' @
      ''\<newline>'' @
      ''Important: Your response must be valid JSON only, with no additional explanation or comments.''\<close>

text \<open>The prompt \<open>handleRequest\<close> sends.\<close>

definition fullPrompt :: "string \<Rightarrow> string option \<Rightarrow> int \<Rightarrow> string \<Rightarrow> string" where
  \<open>fullPrompt sysPrompt knowledgeBase numTasks prdContent =
     (if present knowledgeBase
      then sysPrompt @ ''\<newline>\<newline>'' @ the knowledgeBase @
           ''\<newline>\<newline>Here's the Product Requirements Document (PRD) to break down into '' @
           showInt numTasks @ '' tasks:\<newline>\<newline>'' @ prdContent
      else sysPrompt @
           ''\<newline>\<newline>Here's the Product Requirements Document (PRD) to break down into '' @
           showInt numTasks @ '' tasks:\<newline>\<newline>'' @ prdContent)\<close>

text \<open>The body of the \<open>try\<close> block of \<open>processClaudeResponse\<close>.\<close>

definition processTry ::
    "env \<Rightarrow> string \<Rightarrow> int \<Rightarrow> string \<Rightarrow> (jsexn + jsval) \<times> logEntry list" where
  "processTry E textContent numTasks prdPath =
     (let jsonStart = indexOf textContent (CHR ''{'');
          jsonEnd = lastIndexOf textContent (CHR ''}'')
      in if jsonStart = -1 \<or> jsonEnd = -1
         then (Inl (Error ''Could not find valid JSON in Gemini's response''), [])
         else
           (case jsonParse E (substring textContent jsonStart (jsonEnd + 1)) of
              None \<Rightarrow> (Inl SyntaxError, [])
            | Some parsedData \<Rightarrow>
                if nullish parsedData then (Inl TypeError, [])
                else
                  (case getProp parsedData ''tasks'' of
                     JArr tasks ps \<Rightarrow>
                       let l = (if int (length tasks) \<noteq> numTasks
                                then [(Warn, ''Expected ${numTasks} tasks, but received ${parsedData.tasks.length}'',
                                       [LVal (JNum numTasks), LVal (JNum (int (length tasks)))])]
                                else []);
                           parsedData' =
                             (if \<not> truthy (getProp parsedData ''metadata'')
                              then setProp parsedData ''metadata''
                                     (JObj [(''projectName'', JStr ''PRD Implementation''),
                                            (''totalTasks'', JNum (int (length tasks))),
                                            (''sourceFile'', JStr prdPath),
                                            (''generatedAt'', JStr (today E))])
                              else parsedData)
                       in (Inr parsedData', l)
                   | _ \<Rightarrow> (Inl (Error ''Gemini's response does not contain a valid tasks array''), []))))"

definition zhTask :: string where
  "zhTask = [CHR 0xE4, CHR 0xBB, CHR 0xBB, CHR 0xE5, CHR 0x8A, CHR 0xA1, CHR 0x20]"

definition zhTaskDescription :: string where
  "zhTaskDescription =
     [CHR 0xE5, CHR 0x9B, CHR 0xA0, CHR 0xE8, CHR 0xA7, CHR 0xA3, CHR 0xE6, CHR 0x9E, CHR 0x90,
      CHR 0xE9, CHR 0x94, CHR 0x99, CHR 0xE8, CHR 0xAF, CHR 0xAF, CHR 0xE8, CHR 0x80, CHR 0x8C,
      CHR 0xE7, CHR 0x94, CHR 0x9F, CHR 0xE6, CHR 0x88, CHR 0x90, CHR 0xE7, CHR 0x9A, CHR 0x84,
      CHR 0xE5, CHR 0xA4, CHR 0x87, CHR 0xE7, CHR 0x94, CHR 0xA8, CHR 0xE4, CHR 0xBB, CHR 0xBB,
      CHR 0xE5, CHR 0x8A, CHR 0xA1, CHR 0x20]"

definition zhFullStop :: string where
  "zhFullStop = [CHR 0xE3, CHR 0x80, CHR 0x82]"

definition zhTaskDetails :: string where
  "zhTaskDetails =
     [CHR 0xE8, CHR 0xAF, CHR 0xB7, CHR 0xE4, CHR 0xB8, CHR 0xBA, CHR 0xE6, CHR 0xAD, CHR 0xA4,
      CHR 0xE4, CHR 0xBB, CHR 0xBB, CHR 0xE5, CHR 0x8A, CHR 0xA1, CHR 0xE5, CHR 0xA1, CHR 0xAB,
      CHR 0xE5, CHR 0x86, CHR 0x99, CHR 0xE5, CHR 0xAE, CHR 0x9E, CHR 0xE7, CHR 0x8E, CHR 0xB0,
      CHR 0xE7, CHR 0xBB, CHR 0x86, CHR 0xE8, CHR 0x8A, CHR 0x82, CHR 0xE3, CHR 0x80, CHR 0x82]"

text \<open>The object built by round \<open>i\<close> of the fallback loop of \<open>processClaudeResponse\<close>.\<close>

definition fallbackTask :: "env \<Rightarrow> int \<Rightarrow> jsval" where
  "fallbackTask E i =
     JObj ([(''id'', JNum i),
            (''title'', JStr (''Task '' @ showInt i)),
            (''description'', JStr (''Task '' @ showInt i @ '' generated as fallback due to parsing error.'')),
            (''status'', JStr ''pending''),
            (''dependencies'', if i > 1 then JArr [JNum (i - 1)] [] else JArr [] []),
            (''priority'', JStr ''medium''),
            (''details'', JStr ''Please fill in the implementation details for this task.''),
            (''testStrategy'', JStr ''Manual verification.'')]
           @ (if useChinese E
              then [(''titleTrans'', JStr (zhTask @ showInt i)),
                    (''descriptionTrans'', JStr (zhTaskDescription @ showInt i @ zhFullStop)),
                    (''detailsTrans'', JStr zhTaskDetails),
                    (''testStrategyTrans'', JStr [])]
              else []))"

text \<open>\<open>for (let i = 1; i <= numTasks; i++)\<close>, then the response around the tasks.\<close>

definition fallbackResponse :: "env \<Rightarrow> int \<Rightarrow> string \<Rightarrow> jsval" where
  "fallbackResponse E numTasks prdPath =
     JObj [(''tasks'', JArr (map (fallbackTask E) [1 .. numTasks]) []),
           (''metadata'',
            JObj [(''projectName'', JStr ''PRD Implementation''),
                  (''totalTasks'', JNum numTasks),
                  (''sourceFile'', JStr prdPath),
                  (''generatedAt'', JStr (today E)),
                  (''note'', JStr ''Generated as fallback due to parsing error.'')])]"

text \<open>
  The three functions call one another; every call spends one unit of fuel.

  \<open>callGemini\<close> awaits \<open>handleRequest\<close> inside its \<open>try\<close>, so it catches whatever
  \<open>handleRequest\<close> ends with. \<open>handleRequest\<close> catches the provider's error and throws a new
  error made of the user message alone; it returns \<open>processClaudeResponse(...)\<close> without
  awaiting it, so an exception of the nested \<open>callGemini\<close> passes through it unchanged.
  \<open>CONFIG.maxTokens\<close> is handed on and never used.
\<close>

function callGemini ::
      "nat \<Rightarrow> env \<Rightarrow> string \<Rightarrow> string \<Rightarrow> int \<Rightarrow> int \<Rightarrow> string option \<Rightarrow> world \<Rightarrow> outcome \<times> world"
  and handleRequest ::
      "nat \<Rightarrow> env \<Rightarrow> string \<Rightarrow> string \<Rightarrow> int \<Rightarrow> string \<Rightarrow> string option \<Rightarrow> world \<Rightarrow> outcome \<times> world"
  and processClaudeResponse ::
      "nat \<Rightarrow> env \<Rightarrow> string \<Rightarrow> int \<Rightarrow> int \<Rightarrow> string \<Rightarrow> string \<Rightarrow> world \<Rightarrow> outcome \<times> world"
where
  "callGemini 0 E prdContent prdPath numTasks retryCount knowledgeBase w = (OutOfFuel, w)"
| "callGemini (Suc fuel) E prdContent prdPath numTasks retryCount knowledgeBase w =
     (case handleRequest fuel E prdContent prdPath numTasks
             (systemPrompt E numTasks prdPath knowledgeBase) knowledgeBase
             (addLog (Info, ''Calling Gemini...'', []) w) of
        (Thrown error, w1) \<Rightarrow>
          let userMessage = handleGeminiError error;
              w2 = addLog (Err, userMessage, []) w1
          in if retryCount < 2 \<and>
                (details error = Some (Some ''RESOURCE_EXHAUSTED'') \<or>
                 str_includes (toLowerCase (message error)) ''timeout'' \<or>
                 str_includes (toLowerCase (message error)) ''network'')
             then
               let waitTime = (retryCount + 1) * 5000;
                   w3 = addLog (Info, ''Waiting ${waitTime/1000} seconds before retry ${retryCount + 1}/2...'',
                                [LVal (JNum (waitTime div 1000)), LVal (JNum (retryCount + 1))]) w2;
                   w4 = w3\<lparr>sleeps := sleeps w3 @ [waitTime]\<rparr>
               in callGemini fuel E prdContent prdPath numTasks (retryCount + 1) knowledgeBase w4
             else
               let w3 = addLog (ConsoleError, userMessage, []) w2;
                   w4 = (if debug E then addLog (Debug, ''Full error:'', [LErr error]) w3 else w3)
               in (Thrown (newError userMessage), w4)
      | r \<Rightarrow> r)"
| "handleRequest 0 E prdContent prdPath numTasks sysPrompt knowledgeBase w = (OutOfFuel, w)"
| "handleRequest (Suc fuel) E prdContent prdPath numTasks sysPrompt knowledgeBase w =
     (let prompt = fullPrompt sysPrompt knowledgeBase numTasks prdContent;
          w1 = addLog (Info,
                 (if present knowledgeBase
                  then ''Sending request to Gemini with business knowledge context...''
                  else ''Sending request to Gemini...''), []) w;
          w2 = w1\<lparr>calls := calls w1 @ [prompt]\<rparr>
      in case generateContent E (length (calls w1)) prompt of
           Inr responseText \<Rightarrow>
             processClaudeResponse fuel E responseText numTasks 0 prdContent prdPath
               (addLog (Info, ''Completed non-streaming response from Gemini API!'', []) w2)
         | Inl error \<Rightarrow>
             let userMessage = handleGeminiError error;
                 w3 = addLog (ConsoleError, userMessage, []) (addLog (Err, userMessage, []) w2);
                 w4 = (if debug E then addLog (Debug, ''Full error:'', [LErr error]) w3 else w3)
             in (Thrown (newError userMessage), w4))"
| "processClaudeResponse 0 E textContent numTasks retryCount prdContent prdPath w = (OutOfFuel, w)"
| "processClaudeResponse (Suc fuel) E textContent numTasks retryCount prdContent prdPath w =
     (case processTry E textContent numTasks prdPath of
        (Inr parsedData, l) \<Rightarrow> (Returned parsedData, addLogs l w)
      | (Inl error, l) \<Rightarrow>
          let w1 = addLog (Err, ''Error processing Gemini's response:'', [LExn error]) (addLogs l w)
          in if retryCount < 2
             then
               let w2 = addLog (Info, ''Retrying to parse response (${retryCount + 1}/2)...'',
                                [LVal (JNum (retryCount + 1))]) w1
               in if retryCount = 1
                  then callGemini fuel E prdContent prdPath numTasks (retryCount + 1) None
                         (addLog (Info, ''Calling Gemini again for a cleaner response...'', []) w2)
                  else processClaudeResponse fuel E textContent numTasks (retryCount + 1)
                         prdContent prdPath w2
             else
               (Returned (fallbackResponse E numTasks prdPath),
                addLog (Warn, ''Failed to process after retries. Creating fallback task structure.'', []) w1))"
  by pat_completeness auto
termination
  by (relation "measure (\<lambda>x. case x of Inl a \<Rightarrow> fst a | Inr (Inl b) \<Rightarrow> fst b | Inr (Inr c) \<Rightarrow> fst c)")
     auto

section \<open>Properties\<close>

subsection \<open>Vocabulary of the statements\<close>

text \<open>
  The bracket slice that \<open>parseSubtasksFromText\<close> cuts out of the response parses to an
  array with the elements \<open>xs\<close>.
\<close>

definition repliedArray :: "env \<Rightarrow> string \<Rightarrow> jsval list \<Rightarrow> bool" where
  "repliedArray E text xs =
     (indexOf text (CHR ''['') \<noteq> -1 \<and> lastIndexOf text (CHR '']'') \<noteq> -1 \<and>
      indexOf text (CHR ''['') \<le> lastIndexOf text (CHR '']'') \<and>
      (case jsonParse E (substring text (indexOf text (CHR ''['')) (lastIndexOf text (CHR '']'') + 1)) of
         Some (JArr ys ps) \<Rightarrow> ys = xs
       | _ \<Rightarrow> False))"

text \<open>
  The response has a \<open>[\<close> with a \<open>]\<close> somewhere after it; and: what \<open>JSON.parse\<close> makes of
  the bracket slice is no array (or it throws).
\<close>

definition bracketPair :: "string \<Rightarrow> bool" where
  "bracketPair text = (CHR '']'' \<in> set (dropWhile (\<lambda>c. c \<noteq> CHR ''['') text))"

definition sliceNotArray :: "env \<Rightarrow> string \<Rightarrow> bool" where
  "sliceNotArray E text =
     (case jsonParse E (substring text (indexOf text (CHR ''['')) (lastIndexOf text (CHR '']'') + 1)) of
        Some (JArr ys ps) \<Rightarrow> False
      | _ \<Rightarrow> True)"

text \<open>The brace slice that \<open>processClaudeResponse\<close> cuts out of the response parses to \<open>v\<close>.\<close>

definition repliedObject :: "env \<Rightarrow> string \<Rightarrow> jsval \<Rightarrow> bool" where
  "repliedObject E text v =
     (indexOf text (CHR ''{'') \<noteq> -1 \<and> lastIndexOf text (CHR ''}'') \<noteq> -1 \<and>
      jsonParse E (substring text (indexOf text (CHR ''{'')) (lastIndexOf text (CHR ''}'') + 1)) = Some v)"

text \<open>
  Every answer of the provider is a text that the \<open>try\<close> block of \<open>processClaudeResponse\<close>
  rejects.
\<close>

definition repliesMalformed :: "env \<Rightarrow> int \<Rightarrow> string \<Rightarrow> bool" where
  "repliesMalformed E numTasks prdPath =
     (\<forall>i prompt. \<exists>t. generateContent E i prompt = Inr t \<and> isl (fst (processTry E t numTasks prdPath)))"

text \<open>
  The properties that reconciliation sets, and the pairs of a primary field and its
  translation.
\<close>

definition reconciledKeys :: "string list" where
  "reconciledKeys = [''id'', ''dependencies'', ''status'', ''parentTaskId'',
     ''titleTrans'', ''descriptionTrans'', ''detailsTrans'', ''testStrategyTrans'']"

definition transPairs :: "(string \<times> string) list" where
  "transPairs = [(''title'', ''titleTrans''), (''description'', ''descriptionTrans''),
     (''details'', ''detailsTrans''), (''testStrategy'', ''testStrategyTrans'')]"

text \<open>The four bilingual blocks of \<open>normalizeSubtask\<close> in a row, as they stand in its body.\<close>

definition transChain :: "env \<Rightarrow> jsval \<Rightarrow> jsval \<times> logEntry list" where
  "transChain E s =
     (if useChinese E
      then ensureTrans ''testStrategy'' ''testStrategyTrans''
             (ensureTrans ''details'' ''detailsTrans''
               (ensureTrans ''description'' ''descriptionTrans''
                 (ensureTrans ''title'' ''titleTrans'' (s, []))))
      else (s, []))"

text \<open>
  The elements of an array; the dependencies of a task; and the invariant of the data
  model: every dependency of the task is a number below the task's own id.
\<close>

definition elems :: "jsval \<Rightarrow> jsval list" where
  "elems v = (case v of JArr xs ps \<Rightarrow> xs | _ \<Rightarrow> [])"

definition depsOf :: "jsval \<Rightarrow> jsval list" where
  "depsOf t = (case getProp t ''dependencies'' of JArr ds ps \<Rightarrow> ds | _ \<Rightarrow> [])"

fun below :: "jsval \<Rightarrow> jsval \<Rightarrow> bool" where
  "below (JNum d) (JNum i) = (d < i)"
| "below d i = False"

definition depsBelowId :: "jsval \<Rightarrow> bool" where
  "depsBelowId t = list_all (\<lambda>d. below d (getProp t ''id'')) (depsOf t)"

text \<open>\<open>metadata.totalTasks\<close> of a batch is the number of its tasks.\<close>

definition totalTasksIsCount :: "jsval \<Rightarrow> bool" where
  "totalTasksIsCount batch =
     (getProp (getProp batch ''metadata'') ''totalTasks'' =
        JNum (int (length (elems (getProp batch ''tasks'')))))"

text \<open>What a call returned or threw, how many requests it sent and how long it waited.\<close>

definition outcomeAndEffects :: "outcome \<times> world \<Rightarrow> outcome \<times> nat \<times> int list" where
  "outcomeAndEffects r = (fst r, length (calls (snd r)), sleeps (snd r))"

subsection \<open>Example data\<close>

text \<open>
  A \<open>JSON.parse\<close> known at one text, where it yields the value that the text denotes; the
  environments below use it for the one slice they parse.
\<close>

definition parserAt :: "string \<Rightarrow> jsval \<Rightarrow> string \<Rightarrow> jsval option" where
  "parserAt s v t = (if t = s then Some v else None)"

definition emptyWorld :: world where
  "emptyWorld = \<lparr>calls = [], sleeps = [], logs = []\<rparr>"

text \<open>
  A reply to a subtask expansion: three subtasks with ids 7, none and 6; dependencies
  \<open>["1", 2]\<close>, none and \<open>["a"]\<close>; one translated title.
\<close>

definition exampleSubtasks :: "jsval list" where
  "exampleSubtasks =
     [JObj [(''id'', JNum 7), (''title'', JStr ''A''), (''dependencies'', JArr [JStr ''1'', JNum 2] [])],
      JObj [(''title'', JStr ''B''), (''titleTrans'', JStr ''Bt'')],
      JObj [(''id'', JNum 6), (''title'', JStr ''C''), (''dependencies'', JArr [JStr ''a''] [])]]"

definition exampleReply :: string where
  \<open>exampleReply = ''Sure: [{"id":7,"title":"A","dependencies":["1",2]},{"title":"B","titleTrans":"Bt"},{"id":6,"title":"C","dependencies":["a"]}] Done.''\<close>

definition exampleEnv :: env where
  \<open>exampleEnv =
     \<lparr>jsonParse = parserAt ''[{"id":7,"title":"A","dependencies":["1",2]},{"title":"B","titleTrans":"Bt"},{"id":6,"title":"C","dependencies":["a"]}]'' (JArr exampleSubtasks []),
      useChinese = True, debug = False, today = ''2025-01-01'',
      generateContent = (\<lambda>i prompt. Inr exampleReply)\<rparr>\<close>

text \<open>A reply whose first subtask depends on the second.\<close>

definition forwardSubtasks :: "jsval list" where
  "forwardSubtasks =
     [JObj [(''id'', JNum 1), (''title'', JStr ''A''), (''dependencies'', JArr [JNum 2] [])],
      JObj [(''id'', JNum 2), (''title'', JStr ''B''), (''dependencies'', JArr [] [])]]"

definition forwardReply :: string where
  \<open>forwardReply = ''[{"id":1,"title":"A","dependencies":[2]},{"id":2,"title":"B","dependencies":[]}]''\<close>

definition forwardEnv :: env where
  "forwardEnv =
     \<lparr>jsonParse = parserAt forwardReply (JArr forwardSubtasks []),
      useChinese = False, debug = False, today = ''2025-01-01'',
      generateContent = (\<lambda>i prompt. Inr forwardReply)\<rparr>"

text \<open>A decomposition reply whose task 1 depends on task 2, with a metadata object of its own.\<close>

definition forwardBatch :: jsval where
  "forwardBatch =
     JObj [(''tasks'', JArr forwardSubtasks []), (''metadata'', JObj [(''totalTasks'', JNum 2)])]"

definition forwardBatchReply :: string where
  \<open>forwardBatchReply = ''{"tasks":[{"id":1,"title":"A","dependencies":[2]},{"id":2,"title":"B","dependencies":[]}],"metadata":{"totalTasks":2}}''\<close>

definition forwardBatchEnv :: env where
  "forwardBatchEnv =
     \<lparr>jsonParse = parserAt forwardBatchReply forwardBatch,
      useChinese = False, debug = False, today = ''2025-01-01'',
      generateContent = (\<lambda>i prompt. Inr forwardBatchReply)\<rparr>"

text \<open>
  Replies to a decomposition: four tasks with a metadata object that says five, and the
  same four tasks without metadata.
\<close>

definition fourTasks :: "jsval list" where
  "fourTasks = [JObj [(''id'', JNum 1)], JObj [(''id'', JNum 2)], JObj [(''id'', JNum 3)],
                JObj [(''id'', JNum 4)]]"

definition countedBatch :: jsval where
  "countedBatch = JObj [(''tasks'', JArr fourTasks []), (''metadata'', JObj [(''totalTasks'', JNum 5)])]"

definition countedReply :: string where
  \<open>countedReply = ''{"tasks":[{"id":1},{"id":2},{"id":3},{"id":4}],"metadata":{"totalTasks":5}}''\<close>

definition countedEnv :: env where
  "countedEnv =
     \<lparr>jsonParse = parserAt countedReply countedBatch,
      useChinese = False, debug = False, today = ''2025-01-01'',
      generateContent = (\<lambda>i prompt. Inr countedReply)\<rparr>"

definition bareBatch :: jsval where
  "bareBatch = JObj [(''tasks'', JArr fourTasks [])]"

definition bareReply :: string where
  \<open>bareReply = ''{"tasks":[{"id":1},{"id":2},{"id":3},{"id":4}]}''\<close>

definition bareEnv :: env where
  "bareEnv =
     \<lparr>jsonParse = parserAt bareReply bareBatch,
      useChinese = False, debug = False, today = ''2025-01-01'',
      generateContent = (\<lambda>i prompt. Inr bareReply)\<rparr>"

text \<open>Provider errors, and providers that fail once or twice before they answer.\<close>

definition quotaError :: jserror where
  "quotaError = \<lparr>message = ''Quota exceeded for quota metric'', details = Some (Some ''RESOURCE_EXHAUSTED'')\<rparr>"

definition networkError :: jserror where
  "networkError = \<lparr>message = ''Network request failed'', details = None\<rparr>"

definition permissionError :: jserror where
  "permissionError = \<lparr>message = ''API key not valid'', details = Some (Some ''PERMISSION_DENIED'')\<rparr>"

definition tasksReply :: string where
  \<open>tasksReply = ''{"tasks": []}''\<close>

definition failsOnce :: "jserror \<Rightarrow> env" where
  "failsOnce error =
     \<lparr>jsonParse = parserAt tasksReply (JObj [(''tasks'', JArr [] [])]),
      useChinese = False, debug = False, today = ''2025-01-01'',
      generateContent = (\<lambda>i prompt. if i = 0 then Inl error else Inr tasksReply)\<rparr>"

definition failsTwice :: "jserror \<Rightarrow> env" where
  "failsTwice error =
     \<lparr>jsonParse = parserAt tasksReply (JObj [(''tasks'', JArr [] [])]),
      useChinese = False, debug = False, today = ''2025-01-01'',
      generateContent = (\<lambda>i prompt. if i < 2 then Inl error else Inr tasksReply)\<rparr>"

text \<open>A provider whose every answer is a text without any brace.\<close>

definition alwaysMalformed :: env where
  "alwaysMalformed =
     \<lparr>jsonParse = (\<lambda>s. None), useChinese = False, debug = False, today = ''2025-01-01'',
      generateContent = (\<lambda>i prompt. Inr ''Sorry, I cannot produce JSON.'')\<rparr>"

text \<open>A provider whose first answer is prose and whose later answers parse.\<close>

definition kbEnv :: env where
  "kbEnv =
     \<lparr>jsonParse = parserAt tasksReply (JObj [(''tasks'', JArr [] [])]),
      useChinese = False, debug = False, today = ''2025-01-01'',
      generateContent = (\<lambda>i prompt. if i = 0 then Inr ''I need more detail.'' else Inr tasksReply)\<rparr>"

subsection \<open>Auxiliary facts\<close>

subsubsection \<open>Properties of objects and the reconciliation of one subtask\<close>

lemma map_of_updateKey: "map_of (updateKey k v ps) = (map_of ps)(k \<mapsto> v)"
  by (induction ps) (auto simp: fun_eq_iff)

lemma getProp_setProp:
  "isObject s \<Longrightarrow> getProp (setProp s k x) k' = (if k' = k then x else getProp s k')"
  by (cases s) (simp_all add: map_of_updateKey)

lemma isObject_setProp [simp]: "isObject (setProp s k x) = isObject s"
  by (cases s) simp_all

lemma isObject_ensureTrans [simp]: "isObject (fst (ensureTrans f t sl)) = isObject (fst sl)"
  by (cases sl) (simp add: ensureTrans_def)

lemma getProp_ensureTrans_other:
  "isObject (fst sl) \<Longrightarrow> k \<noteq> t \<Longrightarrow> getProp (fst (ensureTrans f t sl)) k = getProp (fst sl) k"
  by (cases sl) (simp add: ensureTrans_def getProp_setProp)

lemma getProp_ensureTrans_same:
  "isObject (fst sl) \<Longrightarrow>
   getProp (fst (ensureTrans f t sl)) t =
     (if truthy (getProp (fst sl) f) \<and> \<not> truthy (getProp (fst sl) t) then JStr []
      else getProp (fst sl) t)"
  by (cases sl) (simp add: ensureTrans_def getProp_setProp)

lemma snd_ensureTrans:
  "snd (ensureTrans f t sl) =
     (if truthy (getProp (fst sl) f) \<and> \<not> truthy (getProp (fst sl) t)
      then snd sl @ [(Warn, ''Missing '' @ t @ '' for subtask ${subtask.id}, using empty value'',
                      [LVal (getProp (fst sl) ''id'')])]
      else snd sl)"
  by (cases sl) (simp add: ensureTrans_def)

lemma isObject_not_nullish: "isObject s \<Longrightarrow> \<not> nullish s"
  by (cases s) simp_all

lemma normalizeSubtask_returns:
  "isObject s \<Longrightarrow> \<exists>y l. normalizeSubtask E p n s i = (Inr y, l)"
  by (simp add: normalizeSubtask_def Let_def isObject_not_nullish)

lemma normalizeSubtask_id:
  "isObject s \<Longrightarrow> normalizeSubtask E p n s i = (Inr y, l) \<Longrightarrow> getProp y ''id'' = JNum (n + int i)"
  by (auto simp add: normalizeSubtask_def Let_def isObject_not_nullish getProp_setProp
        getProp_ensureTrans_other split: if_splits)

lemma normalizeSubtask_other:
  "isObject s \<Longrightarrow> normalizeSubtask E p n s i = (Inr y, l) \<Longrightarrow> k \<notin> set reconciledKeys \<Longrightarrow>
   getProp y k = getProp s k"
  by (auto simp add: normalizeSubtask_def Let_def isObject_not_nullish getProp_setProp
        getProp_ensureTrans_other reconciledKeys_def split: if_splits)

lemma normalizeSubtask_status:
  "isObject s \<Longrightarrow> normalizeSubtask E p n s i = (Inr y, l) \<Longrightarrow>
   getProp y ''status'' = JStr ''pending'' \<and> getProp y ''parentTaskId'' = p"
  by (auto simp add: normalizeSubtask_def Let_def isObject_not_nullish getProp_setProp
        getProp_ensureTrans_other split: if_splits)

lemma normalizeSubtask_deps:
  "isObject s \<Longrightarrow> normalizeSubtask E p n s i = (Inr y, l) \<Longrightarrow>
   getProp y ''dependencies'' =
     (case getProp s ''dependencies'' of JArr ds ps \<Rightarrow> JArr (map coerceDep ds) [] | _ \<Rightarrow> JArr [] [])"
  by (auto simp add: normalizeSubtask_def Let_def isObject_not_nullish getProp_setProp
        getProp_ensureTrans_other split: if_splits)

subsubsection \<open>Reconciliation of a whole reply\<close>

lemma mapSubtasks_obj:
  "list_all isObject xs \<Longrightarrow>
   \<exists>ys L. mapSubtasks E p n i xs = (Inr ys, L) \<and> length ys = length xs \<and>
     (\<forall>j<length xs. \<exists>l. normalizeSubtask E p n (xs ! j) (i + j) = (Inr (ys ! j), l) \<and> set l \<subseteq> set L)"
proof (induction xs arbitrary: i)
  case Nil
  then show ?case by simp
next
  case (Cons x xs)
  from Cons.prems have ox: "isObject x" and oxs: "list_all isObject xs" by simp_all
  from normalizeSubtask_returns [OF ox] obtain y l where
    y: "normalizeSubtask E p n x i = (Inr y, l)" by blast
  from Cons.IH [OF oxs, of "Suc i"] obtain ys L where
    m: "mapSubtasks E p n (Suc i) xs = (Inr ys, L)" and len: "length ys = length xs" and
    each: "\<forall>j<length xs. \<exists>l. normalizeSubtask E p n (xs ! j) (Suc i + j) = (Inr (ys ! j), l) \<and> set l \<subseteq> set L"
    by blast
  have r: "mapSubtasks E p n i (x # xs) = (Inr (y # ys), l @ L)"
    by (simp add: y m)
  have "\<exists>l'. normalizeSubtask E p n ((x # xs) ! j) (i + j) = (Inr ((y # ys) ! j), l') \<and> set l' \<subseteq> set (l @ L)"
    if "j < length (x # xs)" for j
  proof (cases j)
    case 0
    then show ?thesis using y by auto
  next
    case (Suc j')
    with that have "j' < length xs" by simp
    with each obtain l' where
      "normalizeSubtask E p n (xs ! j') (Suc i + j') = (Inr (ys ! j'), l')" "set l' \<subseteq> set L" by blast
    then show ?thesis using Suc by auto
  qed
  with r len show ?case by auto
qed

lemma parseSubtasksTry_obj:
  assumes "repliedArray E text xs" and "list_all isObject xs"
  shows "\<exists>ys L. parseSubtasksTry E text n c p = (Inr (JArr ys []), L) \<and> length ys = length xs \<and>
     (\<forall>j<length xs. \<exists>l. normalizeSubtask E p n (xs ! j) j = (Inr (ys ! j), l) \<and> set l \<subseteq> set L)"
proof -
  from mapSubtasks_obj [OF assms(2), of E p n 0] obtain ys L where
    m: "mapSubtasks E p n 0 xs = (Inr ys, L)" and len: "length ys = length xs" and
    each: "\<forall>j<length xs. \<exists>l. normalizeSubtask E p n (xs ! j) j = (Inr (ys ! j), l) \<and> set l \<subseteq> set L"
    by auto
  from assms(1) obtain ps where
    a: "indexOf text (CHR ''['') \<noteq> -1" "lastIndexOf text (CHR '']'') \<noteq> -1"
       "indexOf text (CHR ''['') \<le> lastIndexOf text (CHR '']'')"
       "jsonParse E (substring text (indexOf text (CHR ''['')) (lastIndexOf text (CHR '']'') + 1))
         = Some (JArr xs ps)"
    by (auto simp: repliedArray_def split: option.splits jsval.splits)
  have "\<exists>L0. parseSubtasksTry E text n c p = (Inr (JArr ys []), L0 @ L)"
    using a m by (simp add: parseSubtasksTry_def Let_def)
  then obtain L0 where "parseSubtasksTry E text n c p = (Inr (JArr ys []), L0 @ L)" ..
  with len each show ?thesis by fastforce
qed

lemma parseSubtasksFromText_obj:
  assumes "repliedArray E text xs" and "list_all isObject xs"
  shows "\<exists>ys L. parseSubtasksFromText E text n c p = (JArr ys [], L) \<and> length ys = length xs \<and>
     (\<forall>j<length xs. \<exists>l. normalizeSubtask E p n (xs ! j) j = (Inr (ys ! j), l) \<and> set l \<subseteq> set L)"
  using parseSubtasksTry_obj [OF assms, of n c p]
  by (auto simp: parseSubtasksFromText_def)

lemma exampleReply_replied: "repliedArray exampleEnv exampleReply exampleSubtasks"
  by code_simp

lemma exampleSubtasks_objects: "list_all isObject exampleSubtasks"
  by (simp add: exampleSubtasks_def)

subsubsection \<open>Responses without an array\<close>

lemma indexOfFrom_ge: "indexOfFrom c xs i = -1 \<or> i \<le> indexOfFrom c xs i"
  by (induction xs arbitrary: i) (auto, smt (verit))

lemma lastIndexOfFrom_absent: "c \<notin> set xs \<Longrightarrow> lastIndexOfFrom c xs i = -1"
  by (induction xs arbitrary: i) (auto simp: Let_def)

lemma no_bracketPairFrom:
  "CHR '']'' \<notin> set (dropWhile (\<lambda>c. c \<noteq> CHR ''['') xs) \<Longrightarrow>
   indexOfFrom (CHR ''['') xs i = -1 \<or> lastIndexOfFrom (CHR '']'') xs i = -1 \<or>
   lastIndexOfFrom (CHR '']'') xs i < indexOfFrom (CHR ''['') xs i"
proof (induction xs arbitrary: i)
  case Nil
  then show ?case by simp
next
  case (Cons x xs)
  show ?case
  proof (cases "x = CHR ''[''")
    case True
    with Cons.prems have "CHR '']'' \<notin> set (x # xs)" by simp
    then have "lastIndexOfFrom (CHR '']'') (x # xs) i = -1" by (rule lastIndexOfFrom_absent)
    then show ?thesis by blast
  next
    case False
    with Cons.prems have "CHR '']'' \<notin> set (dropWhile (\<lambda>c. c \<noteq> CHR ''['') xs)" by simp
    from Cons.IH [OF this, of "i + 1"] indexOfFrom_ge [of "CHR ''[''" xs "i + 1"] False
    show ?thesis by (auto simp: Let_def)
  qed
qed

lemma no_bracketPair:
  "\<not> bracketPair text \<Longrightarrow>
   indexOf text (CHR ''['') = -1 \<or> lastIndexOf text (CHR '']'') = -1 \<or>
   lastIndexOf text (CHR '']'') < indexOf text (CHR ''['')"
  using no_bracketPairFrom [of _ 0] by (simp add: bracketPair_def indexOf_def lastIndexOf_def)

lemma parseSubtasksTry_fails:
  assumes "\<not> bracketPair text \<or> sliceNotArray E text"
  shows "\<exists>e. parseSubtasksTry E text n c p = (Inl e, [])"
proof (cases "indexOf text (CHR ''['') = -1 \<or> lastIndexOf text (CHR '']'') = -1 \<or>
   lastIndexOf text (CHR '']'') < indexOf text (CHR ''['')")
  case True
  then show ?thesis by (auto simp add: parseSubtasksTry_def Let_def)
next
  case False
  with assms no_bracketPair have "sliceNotArray E text" by blast
  with False show ?thesis
    by (auto simp add: parseSubtasksTry_def sliceNotArray_def Let_def split: option.splits jsval.splits)
qed

lemma fallbackSubtask_fields:
  "getProp (fallbackSubtask E n p i) ''status'' = JStr ''pending'' \<and>
   getProp (fallbackSubtask E n p i) ''dependencies'' = JArr [] [] \<and>
   getProp (fallbackSubtask E n p i) ''parentTaskId'' = p \<and>
   getProp (fallbackSubtask E n p i) ''id'' = JNum (n + int i)"
  by (simp add: fallbackSubtask_def)

subsubsection \<open>\<open>parseInt\<close> without digits\<close>

lemma parseInt10_no_digit:
  assumes "list_all (\<lambda>c. \<not> isDigit c) s"
  shows "parseInt10 s = JNaN"
proof -
  have nd: "\<not> isDigit c" if "c \<in> set s" for c
    using assms that by (simp add: list_all_iff)
  have tw: "takeWhile isDigit u = []" if "set u \<subseteq> set s" for u
    using that nd by (cases u) auto
  have gen: "takeWhile isDigit
               (case t of [] \<Rightarrow> [] | c # cs \<Rightarrow> if c = CHR ''+'' \<or> c = CHR ''-'' then cs else t) = []"
    if "set t \<subseteq> set s" for t
  proof (cases t)
    case Nil
    then show ?thesis by simp
  next
    case (Cons c cs)
    with that have "set cs \<subseteq> set s" and "set (c # cs) \<subseteq> set s" by auto
    then have "takeWhile isDigit cs = []" and "takeWhile isDigit (c # cs) = []"
      using tw by blast+
    with Cons show ?thesis by simp
  qed
  have "set (dropWhile isWhiteSpace s) \<subseteq> set s" by (auto dest: set_dropWhileD)
  from gen [OF this] show ?thesis by (simp add: parseInt10_def Let_def)
qed

subsubsection \<open>The bilingual blocks\<close>

lemma normalizeSubtask_core:
  assumes "isObject s"
  shows "\<exists>s4 l1. normalizeSubtask E p n s i = (Inr (fst (transChain E s4)), l1 @ snd (transChain E s4)) \<and>
     isObject s4 \<and> getProp s4 ''id'' = JNum (n + int i) \<and>
     (\<forall>k. k \<notin> set [''id'', ''dependencies'', ''status'', ''parentTaskId''] \<longrightarrow>
        getProp s4 k = getProp s k)"
proof -
  define s1 where "s1 = (if getProp s ''id'' \<noteq> JNum (n + int i) then setProp s ''id'' (JNum (n + int i)) else s)"
  define s2 where "s2 = setProp s1 ''dependencies''
                        (case getProp s1 ''dependencies'' of
                           JArr ds ps \<Rightarrow> JArr (map coerceDep ds) []
                         | _ \<Rightarrow> JArr [] [])"
  define s4 where "s4 = setProp (setProp s2 ''status'' (JStr ''pending'')) ''parentTaskId'' p"
  have o1: "isObject s1" using assms by (simp add: s1_def)
  have o2: "isObject s2" using o1 by (simp add: s2_def)
  have o4: "isObject s4" using o2 by (simp add: s4_def)
  have id1: "getProp s1 ''id'' = JNum (n + int i)"
    using assms by (simp add: s1_def getProp_setProp)
  have id4: "getProp s4 ''id'' = JNum (n + int i)"
    using o1 o2 id1 by (simp add: s4_def s2_def getProp_setProp)
  have k1: "getProp s1 k = getProp s k" if "k \<noteq> ''id''" for k
    using assms that by (simp add: s1_def getProp_setProp)
  have k4: "getProp s4 k = getProp s k"
    if "k \<notin> set [''id'', ''dependencies'', ''status'', ''parentTaskId'']" for k
    using that o1 o2 k1 by (simp add: s4_def s2_def getProp_setProp)
  have "\<exists>l1. normalizeSubtask E p n s i = (Inr (fst (transChain E s4)), l1 @ snd (transChain E s4))"
    using assms isObject_not_nullish [OF assms]
    unfolding normalizeSubtask_def Let_def transChain_def s4_def s2_def s1_def
    by simp
  with o4 id4 k4 show ?thesis by blast
qed

lemma transChain_off: "\<not> useChinese E \<Longrightarrow> transChain E s = (s, [])"
  by (simp add: transChain_def)

lemma ensureTrans_mono: "set (snd sl) \<subseteq> set (snd (ensureTrans f t sl))"
  by (cases sl) (auto simp: ensureTrans_def)

lemma ensureTrans_stage:
  assumes "isObject (fst pre)"
    and "getProp (fst pre) f = getProp s f"
    and "getProp (fst pre) t = getProp s t"
    and "getProp (fst pre) ''id'' = getProp s ''id''"
    and "getProp (fst post) t = getProp (fst (ensureTrans f t pre)) t"
    and "set (snd (ensureTrans f t pre)) \<subseteq> set (snd post)"
  shows "getProp (fst post) t =
           (if truthy (getProp s f) \<and> \<not> truthy (getProp s t) then JStr [] else getProp s t) \<and>
         (truthy (getProp s f) \<and> \<not> truthy (getProp s t) \<longrightarrow>
            (Warn, ''Missing '' @ t @ '' for subtask ${subtask.id}, using empty value'',
             [LVal (getProp s ''id'')]) \<in> set (snd post))"
proof -
  have a: "getProp (fst post) t =
           (if truthy (getProp s f) \<and> \<not> truthy (getProp s t) then JStr [] else getProp s t)"
    using assms(1,2,3,5) by (simp add: getProp_ensureTrans_same)
  have b: "(Warn, ''Missing '' @ t @ '' for subtask ${subtask.id}, using empty value'',
             [LVal (getProp s ''id'')]) \<in> set (snd (ensureTrans f t pre))"
    if "truthy (getProp s f)" "\<not> truthy (getProp s t)"
    using that assms(2,3,4) by (simp add: snd_ensureTrans)
  from a b assms(6) show ?thesis by blast
qed

lemma transChain_on:
  assumes "useChinese E" and "isObject s" and "(f, t) \<in> set transPairs"
  shows "getProp (fst (transChain E s)) t =
           (if truthy (getProp s f) \<and> \<not> truthy (getProp s t) then JStr [] else getProp s t) \<and>
         (truthy (getProp s f) \<and> \<not> truthy (getProp s t) \<longrightarrow>
            (Warn, ''Missing '' @ t @ '' for subtask ${subtask.id}, using empty value'',
             [LVal (getProp s ''id'')]) \<in> set (snd (transChain E s)))"
proof -
  define c0 :: "jsval \<times> logEntry list" where "c0 = (s, [])"
  define c1 where "c1 = ensureTrans ''title'' ''titleTrans'' c0"
  define c2 where "c2 = ensureTrans ''description'' ''descriptionTrans'' c1"
  define c3 where "c3 = ensureTrans ''details'' ''detailsTrans'' c2"
  define c4 where "c4 = ensureTrans ''testStrategy'' ''testStrategyTrans'' c3"
  have tc: "transChain E s = c4"
    using assms(1) by (simp add: transChain_def c4_def c3_def c2_def c1_def c0_def)
  have o0: "isObject (fst c0)" using assms(2) by (simp add: c0_def)
  have o1: "isObject (fst c1)" using o0 by (simp add: c1_def)
  have o2: "isObject (fst c2)" using o1 by (simp add: c2_def)
  have o3: "isObject (fst c3)" using o2 by (simp add: c3_def)
  have g0: "getProp (fst c0) k = getProp s k" for k by (simp add: c0_def)
  have g1: "getProp (fst c1) k = getProp s k" if "k \<noteq> ''titleTrans''" for k
    using that o0 g0 by (simp add: c1_def getProp_ensureTrans_other)
  have g2: "getProp (fst c2) k = getProp s k"
    if "k \<noteq> ''titleTrans''" "k \<noteq> ''descriptionTrans''" for k
    using that o1 g1 by (simp add: c2_def getProp_ensureTrans_other)
  have g3: "getProp (fst c3) k = getProp s k"
    if "k \<noteq> ''titleTrans''" "k \<noteq> ''descriptionTrans''" "k \<noteq> ''detailsTrans''" for k
    using that o2 g2 by (simp add: c3_def getProp_ensureTrans_other)
  have m12: "set (snd c1) \<subseteq> set (snd c2)" unfolding c2_def by (rule ensureTrans_mono)
  have m23: "set (snd c2) \<subseteq> set (snd c3)" unfolding c3_def by (rule ensureTrans_mono)
  have m34: "set (snd c3) \<subseteq> set (snd c4)" unfolding c4_def by (rule ensureTrans_mono)
  have p21: "getProp (fst c2) k = getProp (fst c1) k" if "k \<noteq> ''descriptionTrans''" for k
    using that o1 by (simp add: c2_def getProp_ensureTrans_other)
  have p32: "getProp (fst c3) k = getProp (fst c2) k" if "k \<noteq> ''detailsTrans''" for k
    using that o2 by (simp add: c3_def getProp_ensureTrans_other)
  have p43: "getProp (fst c4) k = getProp (fst c3) k" if "k \<noteq> ''testStrategyTrans''" for k
    using that o3 by (simp add: c4_def getProp_ensureTrans_other)
  from assms(3) have "(f = ''title'' \<and> t = ''titleTrans'') \<or>
      (f = ''description'' \<and> t = ''descriptionTrans'') \<or>
      (f = ''details'' \<and> t = ''detailsTrans'') \<or>
      (f = ''testStrategy'' \<and> t = ''testStrategyTrans'')"
    by (simp add: transPairs_def)
  then show ?thesis
  proof (elim disjE conjE)
    assume 1: "f = ''title''" "t = ''titleTrans''"
    have "getProp (fst c4) ''titleTrans'' = getProp (fst c1) ''titleTrans''"
      by (simp add: p43 p32 p21)
    moreover have "set (snd c1) \<subseteq> set (snd c4)" using m12 m23 m34 by blast
    ultimately show ?thesis
      unfolding tc 1 using ensureTrans_stage [of c0 "''title''" s "''titleTrans''" c4] o0 g0
      by (simp add: c1_def)
  next
    assume 2: "f = ''description''" "t = ''descriptionTrans''"
    have "getProp (fst c4) ''descriptionTrans'' = getProp (fst c2) ''descriptionTrans''"
      by (simp add: p43 p32)
    moreover have "set (snd c2) \<subseteq> set (snd c4)" using m23 m34 by blast
    ultimately show ?thesis
      unfolding tc 2 using ensureTrans_stage [of c1 "''description''" s "''descriptionTrans''" c4] o1 g1
      by (simp add: c2_def)
  next
    assume 3: "f = ''details''" "t = ''detailsTrans''"
    have "getProp (fst c4) ''detailsTrans'' = getProp (fst c3) ''detailsTrans''"
      by (simp add: p43)
    moreover have "set (snd c3) \<subseteq> set (snd c4)" using m34 by blast
    ultimately show ?thesis
      unfolding tc 3 using ensureTrans_stage [of c2 "''details''" s "''detailsTrans''" c4] o2 g2
      by (simp add: c3_def)
  next
    assume 4: "f = ''testStrategy''" "t = ''testStrategyTrans''"
    show ?thesis
      unfolding tc 4 using ensureTrans_stage [of c3 "''testStrategy''" s "''testStrategyTrans''" c4] o3 g3
      by (simp add: c4_def)
  qed
qed

subsubsection \<open>Dependencies of the synthesized tasks\<close>

lemma fallbackTask_depsBelowId: "depsBelowId (fallbackTask E i)"
  by (simp add: depsBelowId_def depsOf_def fallbackTask_def)

lemma fallbackSubtask_depsBelowId: "depsBelowId (fallbackSubtask E n p i)"
  by (simp add: depsBelowId_def depsOf_def fallbackSubtask_def)

lemma fallbackTask_deps:
  "getProp (fallbackTask E i) ''id'' = JNum i \<and>
   depsOf (fallbackTask E i) = (if 1 < i then [JNum (i - 1)] else [])"
  by (simp add: depsOf_def fallbackTask_def)

lemma fallbackSubtask_deps:
  "getProp (fallbackSubtask E n p i) ''id'' = JNum (n + int i) \<and> depsOf (fallbackSubtask E n p i) = []"
  by (simp add: depsOf_def fallbackSubtask_def)

lemma fallbackResponse_tasks:
  "elems (getProp (fallbackResponse E m path) ''tasks'') = map (fallbackTask E) [1 .. m]"
  by (simp add: fallbackResponse_def elems_def)

lemma forwardReply_replied: "repliedArray forwardEnv forwardReply forwardSubtasks"
  by code_simp

lemma forwardSubtasks_objects: "list_all isObject forwardSubtasks"
  by (simp add: forwardSubtasks_def)

subsubsection \<open>The world, and provider errors\<close>

lemma calls_addLog [simp]: "calls (addLog e w) = calls w"
  by (simp add: addLog_def)

lemma sleeps_addLog [simp]: "sleeps (addLog e w) = sleeps w"
  by (simp add: addLog_def)

lemma logs_addLog [simp]: "logs (addLog e w) = logs w @ [e]"
  by (simp add: addLog_def)

lemma calls_addLogs [simp]: "calls (addLogs l w) = calls w"
  by (simp add: addLogs_def)

lemma sleeps_addLogs [simp]: "sleeps (addLogs l w) = sleeps w"
  by (simp add: addLogs_def)

lemma logs_addLogs [simp]: "logs (addLogs l w) = logs w @ l"
  by (simp add: addLogs_def)

lemma quota_message_not_retried:
  "\<not> str_includes (toLowerCase ''Gemini quota has been exhausted. Please check your API quota and try again later.'') ''timeout'' \<and>
   \<not> str_includes (toLowerCase ''Gemini quota has been exhausted. Please check your API quota and try again later.'') ''network''"
  by code_simp

lemma timeout_message_not_retried:
  "\<not> str_includes (toLowerCase ''The request to Gemini timed out. Please try again.'') ''timeout'' \<and>
   \<not> str_includes (toLowerCase ''The request to Gemini timed out. Please try again.'') ''network''"
  by code_simp

lemma handleRequest_provider_error:
  assumes "generateContent E (length (calls w)) (fullPrompt sp kb n prd) = Inl error"
  shows "\<exists>w'. handleRequest (Suc fuel) E prd path n sp kb w = (Thrown (newError (handleGeminiError error)), w') \<and>
     calls w' = calls w @ [fullPrompt sp kb n prd] \<and> sleeps w' = sleeps w"
  using assms by (simp add: Let_def)

lemma callGemini_rethrows:
  assumes "handleRequest fuel E prd path n (systemPrompt E n path kb) kb
             (addLog (Info, ''Calling Gemini...'', []) w) = (Thrown error, w1)"
    and "\<not> (rc < 2 \<and> (details error = Some (Some ''RESOURCE_EXHAUSTED'') \<or>
                 str_includes (toLowerCase (message error)) ''timeout'' \<or>
                 str_includes (toLowerCase (message error)) ''network''))"
  shows "\<exists>w'. callGemini (Suc fuel) E prd path n rc kb w = (Thrown (newError (handleGeminiError error)), w') \<and>
     calls w' = calls w1 \<and> sleeps w' = sleeps w1"
  using assms by (auto simp add: Let_def)

subsubsection \<open>Replies that never parse\<close>

lemma case_outcome_passes:
  "fst x = OutOfFuel \<Longrightarrow> (case x of (Thrown error, w1) \<Rightarrow> f error w1 | r \<Rightarrow> r) = x"
  by (cases x) (auto split: outcome.splits)

lemma never_returns:
  assumes "repliesMalformed E n path"
  shows "fst (callGemini fuel E prd path n rc kb w) = OutOfFuel \<and>
         fst (handleRequest fuel E prd path n sp kb w) = OutOfFuel \<and>
         (isl (fst (processTry E t n path)) \<and> rc < 2 \<longrightarrow>
            fst (processClaudeResponse fuel E t n rc prd path w) = OutOfFuel)"
proof (induction fuel arbitrary: rc kb w sp t)
  case 0
  show ?case by simp
next
  case (Suc fuel)
  have a: "fst (callGemini (Suc fuel) E prd path n rc kb w) = OutOfFuel"
  proof -
    let ?x = "handleRequest fuel E prd path n (systemPrompt E n path kb) kb
                (addLog (Info, ''Calling Gemini...'', []) w)"
    from Suc have x: "fst ?x = OutOfFuel" by blast
    then show ?thesis
      unfolding callGemini.simps by (simp only: case_outcome_passes [OF x])
  qed
  have b: "fst (handleRequest (Suc fuel) E prd path n sp kb w) = OutOfFuel"
  proof -
    let ?w1 = "addLog (Info,
                 (if present kb
                  then ''Sending request to Gemini with business knowledge context...''
                  else ''Sending request to Gemini...''), []) w"
    from assms obtain t' where
      g: "generateContent E (length (calls ?w1)) (fullPrompt sp kb n prd) = Inr t'" and
      m: "isl (fst (processTry E t' n path))"
      unfolding repliesMalformed_def by blast
    from Suc m have "\<And>w'. fst (processClaudeResponse fuel E t' n 0 prd path w') = OutOfFuel"
      by simp
    with g show ?thesis by (simp add: Let_def)
  qed
  have c: "fst (processClaudeResponse (Suc fuel) E t n rc prd path w) = OutOfFuel"
    if m: "isl (fst (processTry E t n path))" and rc: "rc < 2"
  proof -
    from m obtain e l where pt: "processTry E t n path = (Inl e, l)"
      by (cases "processTry E t n path") (auto simp: isl_def)
    show ?thesis
    proof (cases "rc = 1")
      case True
      with pt rc Suc show ?thesis by (simp add: Let_def)
    next
      case False
      with rc have "rc + 1 < 2" by simp
      with Suc m have "\<And>w'. fst (processClaudeResponse fuel E t n (rc + 1) prd path w') = OutOfFuel"
        by blast
      with pt rc False show ?thesis by (simp add: Let_def)
    qed
  qed
  from a b c show ?case by blast
qed

lemma callGemini_passes:
  assumes "repliesMalformed E n path"
  shows "callGemini (Suc fuel) E prd path n rc kb w =
         handleRequest fuel E prd path n (systemPrompt E n path kb) kb
           (addLog (Info, ''Calling Gemini...'', []) w)"
proof -
  from never_returns [OF assms]
  have x: "fst (handleRequest fuel E prd path n (systemPrompt E n path kb) kb
                 (addLog (Info, ''Calling Gemini...'', []) w)) = OutOfFuel"
    by blast
  show ?thesis
    unfolding callGemini.simps by (simp only: case_outcome_passes [OF x])
qed

lemma handleRequest_passes:
  assumes "repliesMalformed E n path"
  shows "\<exists>t w2. handleRequest (Suc fuel) E prd path n sp kb w =
                  processClaudeResponse fuel E t n 0 prd path w2 \<and>
           isl (fst (processTry E t n path)) \<and>
           calls w2 = calls w @ [fullPrompt sp kb n prd]"
proof -
  let ?w1 = "addLog (Info,
               (if present kb
                then ''Sending request to Gemini with business knowledge context...''
                else ''Sending request to Gemini...''), []) w"
  from assms obtain t where
    g: "generateContent E (length (calls ?w1)) (fullPrompt sp kb n prd) = Inr t" and
    m: "isl (fst (processTry E t n path))"
    unfolding repliesMalformed_def by blast
  let ?w2 = "addLog (Info, ''Completed non-streaming response from Gemini API!'', [])
               (?w1\<lparr>calls := calls ?w1 @ [fullPrompt sp kb n prd]\<rparr>)"
  have "handleRequest (Suc fuel) E prd path n sp kb w = processClaudeResponse fuel E t n 0 prd path ?w2"
    using g by (simp add: Let_def)
  moreover have "calls ?w2 = calls w @ [fullPrompt sp kb n prd]" by simp
  ultimately show ?thesis using m by blast
qed

lemma processClaudeResponse_resends:
  assumes "isl (fst (processTry E t n path))"
  shows "\<exists>w'. processClaudeResponse (Suc (Suc fuel)) E t n 0 prd path w =
                callGemini fuel E prd path n 2 None w' \<and> calls w' = calls w"
proof -
  from assms obtain e l where pt: "processTry E t n path = (Inl e, l)"
    by (cases "processTry E t n path") (auto simp: isl_def)
  show ?thesis
    by (simp add: pt Let_def, intro exI conjI, rule refl, simp)
qed

lemma parse_retry_cycle:
  assumes "repliesMalformed E n path"
  shows "\<exists>w'. callGemini (Suc (Suc (Suc (Suc fuel)))) E prd path n rc kb w =
                callGemini fuel E prd path n 2 None w' \<and>
           calls w' = calls w @ [fullPrompt (systemPrompt E n path kb) kb n prd]"
proof -
  let ?w0 = "addLog (Info, ''Calling Gemini...'', []) w"
  let ?sp = "systemPrompt E n path kb"
  from handleRequest_passes [OF assms, of "Suc (Suc fuel)" prd ?sp kb ?w0] obtain t w2 where
    h: "handleRequest (Suc (Suc (Suc fuel))) E prd path n ?sp kb ?w0 =
          processClaudeResponse (Suc (Suc fuel)) E t n 0 prd path w2" and
    m: "isl (fst (processTry E t n path))" and
    c2: "calls w2 = calls ?w0 @ [fullPrompt ?sp kb n prd]"
    by blast
  from processClaudeResponse_resends [OF m, of fuel prd w2] obtain w' where
    p: "processClaudeResponse (Suc (Suc fuel)) E t n 0 prd path w2 = callGemini fuel E prd path n 2 None w'" and
    c': "calls w' = calls w2"
    by blast
  from callGemini_passes [OF assms, of "Suc (Suc (Suc fuel))" prd rc kb w] h p
  have "callGemini (Suc (Suc (Suc (Suc fuel)))) E prd path n rc kb w = callGemini fuel E prd path n 2 None w'"
    by simp
  with c' c2 show ?thesis by auto
qed

lemma calls_grow:
  assumes "repliesMalformed E n path"
  shows "length (calls (snd (callGemini (4 * k + 2) E prd path n rc kb w))) = length (calls w) + k + 1"
proof (induction k arbitrary: rc kb w)
  case 0
  from handleRequest_passes [OF assms, of 0 prd "systemPrompt E n path kb" kb
         "addLog (Info, ''Calling Gemini...'', []) w"]
  obtain t w2 where
    "handleRequest (Suc 0) E prd path n (systemPrompt E n path kb) kb
       (addLog (Info, ''Calling Gemini...'', []) w) = processClaudeResponse 0 E t n 0 prd path w2" and
    "calls w2 = calls (addLog (Info, ''Calling Gemini...'', []) w) @
                  [fullPrompt (systemPrompt E n path kb) kb n prd]"
    by blast
  moreover have "(4 * 0 + 2 :: nat) = Suc (Suc 0)" by simp
  ultimately show ?case
    using callGemini_passes [OF assms, of "Suc 0" prd rc kb w] by simp
next
  case (Suc k)
  have f: "4 * Suc k + 2 = Suc (Suc (Suc (Suc (4 * k + 2))))" by simp
  from parse_retry_cycle [OF assms, of "4 * k + 2" prd rc kb w] obtain w' where
    "callGemini (Suc (Suc (Suc (Suc (4 * k + 2))))) E prd path n rc kb w =
       callGemini (4 * k + 2) E prd path n 2 None w'" and
    "calls w' = calls w @ [fullPrompt (systemPrompt E n path kb) kb n prd]"
    by blast
  with Suc.IH [of 2 None w'] show ?case unfolding f by simp
qed

lemma alwaysMalformed_malformed: "repliesMalformed alwaysMalformed 3 ''prd.txt''"
  by (simp add: repliesMalformed_def alwaysMalformed_def processTry_def indexOf_def)

subsubsection \<open>Replies that parse\<close>

lemma processTry_parsed:
  assumes "repliedObject E text v" and "getProp v ''tasks'' = JArr ts ps"
  shows "processTry E text k path =
     (Inr (if \<not> truthy (getProp v ''metadata'')
           then setProp v ''metadata''
                  (JObj [(''projectName'', JStr ''PRD Implementation''),
                         (''totalTasks'', JNum (int (length ts))),
                         (''sourceFile'', JStr path),
                         (''generatedAt'', JStr (today E))])
           else v),
      if int (length ts) \<noteq> k
      then [(Warn, ''Expected ${numTasks} tasks, but received ${parsedData.tasks.length}'',
             [LVal (JNum k), LVal (JNum (int (length ts)))])]
      else [])"
proof -
  from assms(2) have "\<not> nullish v" by (cases v) simp_all
  with assms show ?thesis
    by (simp add: processTry_def repliedObject_def Let_def)
qed

lemma callGemini_returns:
  assumes "generateContent E (length (calls w))
             (fullPrompt (systemPrompt E k path kb) kb k prd) = Inr text"
    and "processTry E text k path = (Inr r, l)"
  shows "\<exists>w'. callGemini (Suc (Suc (Suc fuel))) E prd path k rc kb w = (Returned r, w') \<and>
     calls w' = calls w @ [fullPrompt (systemPrompt E k path kb) kb k prd] \<and>
     sleeps w' = sleeps w \<and> set l \<subseteq> set (logs w')"
  using assms by (auto simp add: Let_def)

lemma countedReply_replied: "repliedObject countedEnv countedReply countedBatch"
  by code_simp

lemma bareReply_replied: "repliedObject bareEnv bareReply bareBatch"
  by code_simp

lemma forwardBatchReply_replied: "repliedObject forwardBatchEnv forwardBatchReply forwardBatch"
  by code_simp

lemma forwardBatch_returned:
  "fst (callGemini 3 forwardBatchEnv ''Build a shop'' ''prd.txt'' 2 0 None emptyWorld) = Returned forwardBatch"
proof -
  have g: "generateContent forwardBatchEnv (length (calls emptyWorld))
             (fullPrompt (systemPrompt forwardBatchEnv 2 ''prd.txt'' None) None 2 ''Build a shop'')
           = Inr forwardBatchReply"
    by (simp add: forwardBatchEnv_def)
  have t: "getProp forwardBatch ''tasks'' = JArr forwardSubtasks []"
    by (simp add: forwardBatch_def)
  have m: "truthy (getProp forwardBatch ''metadata'')"
    by (simp add: forwardBatch_def)
  have three: "(3::nat) = Suc (Suc (Suc 0))" by simp
  from processTry_parsed [OF forwardBatchReply_replied t, of 2 "''prd.txt''"] m
  obtain l where "processTry forwardBatchEnv forwardBatchReply 2 ''prd.txt'' = (Inr forwardBatch, l)"
    by simp
  from callGemini_returns [OF g this, of 0 0] show ?thesis
    unfolding three by auto
qed

subsubsection \<open>The requests of a run only accumulate\<close>

lemma case_outcome_returned:
  "fst x = Returned v \<Longrightarrow> (case x of (Thrown error, w1) \<Rightarrow> f error w1 | r \<Rightarrow> r) = x"
  by (cases x) auto

lemma case_outcome_thrown:
  "x = (Thrown error, w1) \<Longrightarrow> (case x of (Thrown error, w1) \<Rightarrow> f error w1 | r \<Rightarrow> r) = f error w1"
  by simp

lemma callGemini_extends_step:
  assumes ih: "\<And>rc kb w. \<exists>cs. calls (snd (callGemini fuel E prd path n rc kb w)) = calls w @ cs"
  shows "\<exists>cs. calls (snd (callGemini (Suc fuel) E prd path n rc kb w)) =
         calls (snd (handleRequest fuel E prd path n (systemPrompt E n path kb) kb
                       (addLog (Info, ''Calling Gemini...'', []) w))) @ cs"
proof -
  let ?x = "handleRequest fuel E prd path n (systemPrompt E n path kb) kb
              (addLog (Info, ''Calling Gemini...'', []) w)"
  show ?thesis
  proof (cases "fst ?x")
    case (Thrown error)
    then have xe: "?x = (Thrown error, snd ?x)" by (metis prod.collapse)
    show ?thesis
    proof (cases "rc < 2 \<and> (details error = Some (Some ''RESOURCE_EXHAUSTED'') \<or>
               str_includes (toLowerCase (message error)) ''timeout'' \<or>
               str_includes (toLowerCase (message error)) ''network'')")
      case True
      let ?w4 = "(addLog (Info, ''Waiting ${waitTime/1000} seconds before retry ${retryCount + 1}/2...'',
                              [LVal (JNum ((rc + 1) * 5000 div 1000)), LVal (JNum (rc + 1))])
                    (addLog (Err, handleGeminiError error, []) (snd ?x)))
                 \<lparr>sleeps := sleeps (addLog (Info, ''Waiting ${waitTime/1000} seconds before retry ${retryCount + 1}/2...'',
                              [LVal (JNum ((rc + 1) * 5000 div 1000)), LVal (JNum (rc + 1))])
                    (addLog (Err, handleGeminiError error, []) (snd ?x))) @ [(rc + 1) * 5000]\<rparr>"
      have "callGemini (Suc fuel) E prd path n rc kb w = callGemini fuel E prd path n (rc + 1) kb ?w4"
        using True by (subst callGemini.simps, simp only: case_outcome_thrown [OF xe]) (simp add: Let_def)
      moreover from ih [of "rc + 1" kb ?w4] obtain cs' where
        "calls (snd (callGemini fuel E prd path n (rc + 1) kb ?w4)) = calls ?w4 @ cs'"
        by blast
      moreover have "calls ?w4 = calls (snd ?x)" by simp
      ultimately show ?thesis by simp
    next
      case False
      from callGemini_rethrows [OF xe False] show ?thesis by auto
    qed
  next
    case (Returned v)
    then have "callGemini (Suc fuel) E prd path n rc kb w = ?x"
      by (subst callGemini.simps) (simp only: case_outcome_returned)
    then show ?thesis by simp
  next
    case OutOfFuel
    then have "callGemini (Suc fuel) E prd path n rc kb w = ?x"
      by (subst callGemini.simps) (simp only: case_outcome_passes)
    then show ?thesis by simp
  qed
qed

lemma calls_extend:
  "(\<exists>cs. calls (snd (callGemini fuel E prd path n rc kb w)) = calls w @ cs) \<and>
   (\<exists>cs. calls (snd (handleRequest fuel E prd path n sp kb w)) = calls w @ cs) \<and>
   (\<exists>cs. calls (snd (processClaudeResponse fuel E t n rc prd path w)) = calls w @ cs)"
proof (induction fuel arbitrary: rc kb w sp t)
  case 0
  show ?case by simp
next
  case (Suc fuel)
  from Suc have ih1: "\<exists>cs. calls (snd (callGemini fuel E prd path n rc kb w)) = calls w @ cs" for rc kb w
    by blast
  from Suc have ih2: "\<exists>cs. calls (snd (handleRequest fuel E prd path n sp kb w)) = calls w @ cs" for sp kb w
    by blast
  from Suc have ih3: "\<exists>cs. calls (snd (processClaudeResponse fuel E t n rc prd path w)) = calls w @ cs"
    for t rc w
    by blast
  have a: "\<exists>cs. calls (snd (callGemini (Suc fuel) E prd path n rc kb w)) = calls w @ cs"
  proof -
    from callGemini_extends_step [of fuel E prd path n rc kb w, OF ih1] obtain cs where
      "calls (snd (callGemini (Suc fuel) E prd path n rc kb w)) =
         calls (snd (handleRequest fuel E prd path n (systemPrompt E n path kb) kb
                       (addLog (Info, ''Calling Gemini...'', []) w))) @ cs"
      by blast
    moreover from ih2 [of "systemPrompt E n path kb" kb "addLog (Info, ''Calling Gemini...'', []) w"]
    obtain cs' where
      "calls (snd (handleRequest fuel E prd path n (systemPrompt E n path kb) kb
                     (addLog (Info, ''Calling Gemini...'', []) w))) = calls w @ cs'"
      by auto
    ultimately show ?thesis by simp
  qed
  have b: "\<exists>cs. calls (snd (handleRequest (Suc fuel) E prd path n sp kb w)) = calls w @ cs"
  proof (cases "generateContent E (length (calls w)) (fullPrompt sp kb n prd)")
    case (Inl error)
    from handleRequest_provider_error [OF this] show ?thesis by (metis snd_conv)
  next
    case (Inr reply)
    let ?w2 = "addLog (Info, ''Completed non-streaming response from Gemini API!'', [])
               ((addLog (Info,
                 (if present kb
                  then ''Sending request to Gemini with business knowledge context...''
                  else ''Sending request to Gemini...''), []) w)
                \<lparr>calls := calls w @ [fullPrompt sp kb n prd]\<rparr>)"
    have "handleRequest (Suc fuel) E prd path n sp kb w = processClaudeResponse fuel E reply n 0 prd path ?w2"
      using Inr by (simp add: Let_def)
    moreover from ih3 [of reply 0 ?w2] obtain cs where
      "calls (snd (processClaudeResponse fuel E reply n 0 prd path ?w2)) = calls ?w2 @ cs"
      by blast
    ultimately show ?thesis by simp
  qed
  have c: "\<exists>cs. calls (snd (processClaudeResponse (Suc fuel) E t n rc prd path w)) = calls w @ cs"
  proof (cases "processTry E t n path")
    case (Pair res l)
    show ?thesis
    proof (cases res)
      case (Inr v)
      with Pair show ?thesis by simp
    next
      case (Inl e)
      let ?w1 = "addLog (Err, ''Error processing Gemini's response:'', [LExn e]) (addLogs l w)"
      let ?w2 = "addLog (Info, ''Retrying to parse response (${retryCount + 1}/2)...'',
                                [LVal (JNum (rc + 1))]) ?w1"
      consider "rc < 2" "rc = 1" | "rc < 2" "rc \<noteq> 1" | "\<not> rc < 2" by blast
      then show ?thesis
      proof cases
        case 1
        let ?w3 = "addLog (Info, ''Calling Gemini again for a cleaner response...'', []) ?w2"
        have "processClaudeResponse (Suc fuel) E t n rc prd path w =
                callGemini fuel E prd path n (rc + 1) None ?w3"
          using Pair Inl 1 by (simp add: Let_def)
        moreover from ih1 [of "rc + 1" None ?w3] obtain cs where
          "calls (snd (callGemini fuel E prd path n (rc + 1) None ?w3)) = calls ?w3 @ cs"
          by blast
        ultimately show ?thesis by simp
      next
        case 2
        have "processClaudeResponse (Suc fuel) E t n rc prd path w =
                processClaudeResponse fuel E t n (rc + 1) prd path ?w2"
          using Pair Inl 2 by (simp add: Let_def)
        moreover from ih3 [of t "rc + 1" ?w2] obtain cs where
          "calls (snd (processClaudeResponse fuel E t n (rc + 1) prd path ?w2)) = calls ?w2 @ cs"
          by blast
        ultimately show ?thesis by simp
      next
        case 3
        with Pair Inl show ?thesis by (simp add: Let_def)
      qed
    qed
  qed
  from a b c show ?case by blast
qed

lemma handleRequest_first_call:
  "\<exists>cs. calls (snd (handleRequest (Suc fuel) E prd path n sp kb w)) = calls w @ fullPrompt sp kb n prd # cs"
proof (cases "generateContent E (length (calls w)) (fullPrompt sp kb n prd)")
  case (Inl error)
  from handleRequest_provider_error [OF this, of fuel path] show ?thesis by auto
next
  case (Inr reply)
  let ?w2 = "addLog (Info, ''Completed non-streaming response from Gemini API!'', [])
             ((addLog (Info,
               (if present kb
                then ''Sending request to Gemini with business knowledge context...''
                else ''Sending request to Gemini...''), []) w)
              \<lparr>calls := calls w @ [fullPrompt sp kb n prd]\<rparr>)"
  have "handleRequest (Suc fuel) E prd path n sp kb w = processClaudeResponse fuel E reply n 0 prd path ?w2"
    using Inr by (simp add: Let_def)
  moreover from calls_extend [of fuel E prd path n 0 kb ?w2 sp reply] obtain cs where
    "calls (snd (processClaudeResponse fuel E reply n 0 prd path ?w2)) = calls ?w2 @ cs"
    by blast
  ultimately show ?thesis by simp
qed

lemma callGemini_extends_handleRequest:
  "\<exists>cs. calls (snd (callGemini (Suc fuel) E prd path n rc kb w)) =
         calls (snd (handleRequest fuel E prd path n (systemPrompt E n path kb) kb
                       (addLog (Info, ''Calling Gemini...'', []) w))) @ cs"
  using calls_extend [of fuel E prd path n] by (intro callGemini_extends_step) blast

subsubsection \<open>Prompts with and without a knowledge base\<close>

lemma startsWith_append: "startsWith (k @ b) k"
  by (induction k) simp_all

lemma startsWith_includes: "startsWith s k \<Longrightarrow> str_includes s k"
proof (cases s)
  case Nil
  assume "startsWith s k"
  with Nil show ?thesis by (cases k) simp_all
next
  case (Cons c cs)
  assume "startsWith s k"
  with Cons show ?thesis by simp
qed

lemma str_includes_append: "str_includes (a @ k @ b) k"
proof (induction a)
  case Nil
  show ?case using startsWith_includes [OF startsWith_append [of k b]] by simp
next
  case (Cons c a)
  then show ?case by simp
qed

lemma systemPrompt_length:
  "present kb \<Longrightarrow> length (systemPrompt E n path None) < length (systemPrompt E n path kb)"
  by (simp add: systemPrompt_def present_def)

lemma fullPrompt_includes_knowledge:
  "present kb \<Longrightarrow> str_includes (fullPrompt sp kb n prd) (the kb)"
proof -
  assume "present kb"
  then have "fullPrompt sp kb n prd =
     (sp @ ''\<newline>\<newline>'') @ the kb @
       (''\<newline>\<newline>Here's the Product Requirements Document (PRD) to break down into '' @
        showInt n @ '' tasks:\<newline>\<newline>'' @ prd)"
    by (simp add: fullPrompt_def)
  then show ?thesis by (simp only: str_includes_append)
qed

lemma fullPrompt_differs:
  assumes "present kb"
  shows "fullPrompt (systemPrompt E n path None) None n prd \<noteq> fullPrompt (systemPrompt E n path kb) kb n prd"
proof -
  have "length (fullPrompt (systemPrompt E n path None) None n prd) <
        length (fullPrompt (systemPrompt E n path kb) kb n prd)"
    using assms systemPrompt_length [OF assms, of E n path]
    by (simp add: fullPrompt_def present_def)
  then show ?thesis by auto
qed

subsection \<open>Contiguous ids\<close>

text \<open>
  C1. Whenever the bracket slice of the response parses to an array \<open>xs\<close> of objects,
  \<open>parseSubtasksFromText\<close> returns an array of the same length whose ids are
  \<open>n, n + 1, ..., n + length xs - 1\<close> in this order, whatever ids the reply carried, and
  whose \<open>i\<close>-th element agrees with \<open>xs ! i\<close> on every property that reconciliation does not
  set (so the subtasks come back in their original order).
\<close>

theorem subtask_ids_contiguous:
  assumes "repliedArray E text xs" and "list_all isObject xs"
  shows "\<exists>ys. fst (parseSubtasksFromText E text n expectedCount parentTaskId) = JArr ys [] \<and>
     length ys = length xs \<and>
     map (\<lambda>y. getProp y ''id'') ys = map (\<lambda>i. JNum (n + int i)) [0 ..< length xs] \<and>
     (\<forall>i<length xs. \<forall>k. k \<notin> set reconciledKeys \<longrightarrow> getProp (ys ! i) k = getProp (xs ! i) k)"
proof -
  from parseSubtasksFromText_obj [OF assms, of n expectedCount parentTaskId] obtain ys L where
    r: "parseSubtasksFromText E text n expectedCount parentTaskId = (JArr ys [], L)" and
    len: "length ys = length xs" and
    each: "\<forall>j<length xs. \<exists>l. normalizeSubtask E parentTaskId n (xs ! j) j = (Inr (ys ! j), l) \<and> set l \<subseteq> set L"
    by blast
  have obj: "isObject (xs ! j)" if "j < length xs" for j
    using assms(2) that by (simp add: list_all_length)
  have ids: "getProp (ys ! j) ''id'' = JNum (n + int j)" if "j < length xs" for j
    using each obj that normalizeSubtask_id by blast
  have keep: "getProp (ys ! j) k = getProp (xs ! j) k" if "j < length xs" "k \<notin> set reconciledKeys" for j k
    using each obj that normalizeSubtask_other by blast
  have "map (\<lambda>y. getProp y ''id'') ys = map (\<lambda>i. JNum (n + int i)) [0 ..< length xs]"
    by (rule nth_equalityI) (simp_all add: len ids)
  with r len keep show ?thesis by simp
qed

theorem subtask_ids_contiguous_witness:
  "repliedArray exampleEnv exampleReply exampleSubtasks \<and> list_all isObject exampleSubtasks \<and>
   (\<exists>ys. fst (parseSubtasksFromText exampleEnv exampleReply 4 3 (JNum 9)) = JArr ys [] \<and>
      length ys = 3 \<and>
      map (\<lambda>y. getProp y ''id'') ys = [JNum 4, JNum 5, JNum 6] \<and>
      map (\<lambda>y. getProp y ''title'') ys = [JStr ''A'', JStr ''B'', JStr ''C''])"
proof -
  from subtask_ids_contiguous [OF exampleReply_replied exampleSubtasks_objects, of 4 3 "JNum 9"]
  obtain ys where
    r: "fst (parseSubtasksFromText exampleEnv exampleReply 4 3 (JNum 9)) = JArr ys []" and
    len: "length ys = length exampleSubtasks" and
    ids: "map (\<lambda>y. getProp y ''id'') ys = map (\<lambda>i. JNum (4 + int i)) [0 ..< length exampleSubtasks]" and
    keep: "\<forall>i<length exampleSubtasks. \<forall>k. k \<notin> set reconciledKeys \<longrightarrow>
             getProp (ys ! i) k = getProp (exampleSubtasks ! i) k"
    by blast
  have l3: "length exampleSubtasks = 3" by (simp add: exampleSubtasks_def)
  have t: "''title'' \<notin> set reconciledKeys" by (simp add: reconciledKeys_def)
  have "map (\<lambda>y. getProp y ''title'') ys = map (\<lambda>y. getProp y ''title'') exampleSubtasks"
    by (rule nth_equalityI) (use len keep t in simp_all)
  then have titles: "map (\<lambda>y. getProp y ''title'') ys = [JStr ''A'', JStr ''B'', JStr ''C'']"
    by (simp add: exampleSubtasks_def)
  have "[0 ..< 3] = [0, 1, 2::nat]" by (simp add: upt_rec)
  with ids l3 have "map (\<lambda>y. getProp y ''id'') ys = [JNum 4, JNum 5, JNum 6]" by simp
  with r len l3 titles exampleReply_replied exampleSubtasks_objects show ?thesis by simp
qed

text \<open>
  The elements have to be objects: a \<open>null\<close> among them makes the callback throw, and the
  whole reply is replaced by the fallback list of the requested length.
\<close>

lemma null_element_falls_back:
  assumes "repliedArray E text (JNull # xs)"
  shows "fst (parseSubtasksFromText E text n expectedCount parentTaskId) =
         JArr (fallbackSubtasks E n expectedCount parentTaskId) []"
proof -
  from assms obtain ps where
    "indexOf text (CHR ''['') \<noteq> -1" "lastIndexOf text (CHR '']'') \<noteq> -1"
    "indexOf text (CHR ''['') \<le> lastIndexOf text (CHR '']'')"
    "jsonParse E (substring text (indexOf text (CHR ''['')) (lastIndexOf text (CHR '']'') + 1))
       = Some (JArr (JNull # xs) ps)"
    by (auto simp: repliedArray_def split: option.splits jsval.splits)
  then show ?thesis
    by (simp add: parseSubtasksFromText_def parseSubtasksTry_def normalizeSubtask_def Let_def)
qed

subsection \<open>Fallback subtasks\<close>

text \<open>
  C3. A response with no \<open>[\<close> followed by a \<open>]\<close>, or whose bracket slice does not parse to an
  array, makes the \<open>try\<close> block of \<open>parseSubtasksFromText\<close> fail; \<open>generateSubtasks\<close> still
  returns (no exception) for every parent task that is an object, and what it returns is a
  list of as many subtasks as were asked for, each with status \<open>pending\<close>, no dependencies
  and the parent task's id.
\<close>

theorem fallback_on_extraction_failure:
  assumes "\<not> bracketPair text \<or> sliceNotArray E text" and "0 \<le> numSubtasks"
    and "isObject task"
  shows "(\<exists>e l. parseSubtasksTry E text nextSubtaskId numSubtasks (getProp task ''id'') = (Inl e, l)) \<and>
     (\<exists>ys L. generateSubtasks E (Inr text) task numSubtasks nextSubtaskId = Inr (JArr ys [], L) \<and>
        int (length ys) = numSubtasks \<and>
        list_all (\<lambda>y. getProp y ''status'' = JStr ''pending'' \<and>
                      getProp y ''dependencies'' = JArr [] [] \<and>
                      getProp y ''parentTaskId'' = getProp task ''id'') ys)"
proof -
  from parseSubtasksTry_fails [OF assms(1)] obtain e where
    f: "parseSubtasksTry E text nextSubtaskId numSubtasks (getProp task ''id'') = (Inl e, [])"
    by blast
  let ?ys = "fallbackSubtasks E nextSubtaskId numSubtasks (getProp task ''id'')"
  have g: "\<exists>L. generateSubtasks E (Inr text) task numSubtasks nextSubtaskId = Inr (JArr ?ys [], L)"
    by (simp add: generateSubtasks_def parseSubtasksFromText_def f)
  have len: "int (length ?ys) = numSubtasks"
    using assms(2) by (simp add: fallbackSubtasks_def)
  have each: "list_all (\<lambda>y. getProp y ''status'' = JStr ''pending'' \<and>
                      getProp y ''dependencies'' = JArr [] [] \<and>
                      getProp y ''parentTaskId'' = getProp task ''id'') ?ys"
    by (simp add: fallbackSubtasks_def list_all_iff fallbackSubtask_fields)
  from f g len each show ?thesis by blast
qed

theorem fallback_on_extraction_failure_witness:
  "\<not> bracketPair ''I cannot help with that.'' \<and> sliceNotArray exampleEnv ''See [1] and [2].'' \<and>
   (0::int) \<le> 2 \<and> isObject (JObj [(''id'', JNum 3)]) \<and>
   (\<exists>e l. parseSubtasksTry exampleEnv ''I cannot help with that.'' 5 2
            (getProp (JObj [(''id'', JNum 3)]) ''id'') = (Inl e, l)) \<and>
   (\<exists>ys L. generateSubtasks exampleEnv (Inr ''I cannot help with that.'') (JObj [(''id'', JNum 3)]) 2 5
            = Inr (JArr ys [], L) \<and>
      int (length ys) = 2 \<and>
      list_all (\<lambda>y. getProp y ''status'' = JStr ''pending'' \<and>
                    getProp y ''dependencies'' = JArr [] [] \<and>
                    getProp y ''parentTaskId'' = getProp (JObj [(''id'', JNum 3)]) ''id'') ys) \<and>
   (\<exists>ys L. generateSubtasks exampleEnv (Inr ''See [1] and [2].'') (JObj [(''id'', JNum 3)]) 2 5
            = Inr (JArr ys [], L) \<and>
      int (length ys) = 2)"
proof -
  have a: "\<not> bracketPair ''I cannot help with that.''"
    by (simp add: bracketPair_def)
  have b: "sliceNotArray exampleEnv ''See [1] and [2].''"
    by code_simp
  have h2: "(0::int) \<le> 2" by simp
  have h3: "isObject (JObj [(''id'', JNum 3)])" by simp
  from a have h1: "\<not> bracketPair ''I cannot help with that.'' \<or>
                   sliceNotArray exampleEnv ''I cannot help with that.''" ..
  from b have h1': "\<not> bracketPair ''See [1] and [2].'' \<or>
                    sliceNotArray exampleEnv ''See [1] and [2].''" ..
  from fallback_on_extraction_failure [OF h1 h2 h3, of 5]
       fallback_on_extraction_failure [OF h1' h2 h3, of 5] a b h2 h3
  show ?thesis by blast
qed

subsection \<open>Dependencies and ids\<close>

text \<open>
  C5, as stated, fails on both paths. The subtask reply \<open>forwardReply\<close>, whose first
  subtask depends on the second, comes back from \<open>parseSubtasksFromText\<close> with ids 1 and 2
  and the dependency \<open>[2]\<close> still on subtask 1; and the decomposition reply
  \<open>forwardBatchReply\<close>, whose task 1 depends on task 2, is what \<open>callGemini\<close> returns.
\<close>

theorem dependencies_below_id_counterexample:
  "\<not> list_all depsBelowId (elems (fst (parseSubtasksFromText forwardEnv forwardReply 1 2 (JNum 1)))) \<and>
   fst (callGemini 3 forwardBatchEnv ''Build a shop'' ''prd.txt'' 2 0 None emptyWorld) = Returned forwardBatch \<and>
   \<not> list_all depsBelowId (elems (getProp forwardBatch ''tasks''))"
proof -
  have a: "\<not> list_all depsBelowId (elems (fst (parseSubtasksFromText forwardEnv forwardReply 1 2 (JNum 1))))"
    by code_simp
  have c: "\<not> list_all depsBelowId (elems (getProp forwardBatch ''tasks''))"
    by (simp add: forwardBatch_def elems_def forwardSubtasks_def depsBelowId_def depsOf_def)
  from a forwardBatch_returned c show ?thesis by blast
qed

text \<open>
  C5, amended. The pipeline establishes "dependency ids below the task's own id" only for
  what it synthesizes itself: the tasks of a fallback response are the tasks \<open>1 .. m\<close>,
  task \<open>i\<close> with id \<open>i\<close> and the dependencies exactly \<open>[i - 1]\<close> (none for task 1), and
  every fallback subtask has no dependencies at all. For parsed replies nothing is
  checked. A parsed decomposition reply is returned with its tasks as they were parsed,
  so the returned batch satisfies the invariant exactly when the reply did. A parsed
  subtask reply keeps its own dependency entries, strings replaced by their \<open>parseInt\<close>,
  next to the reassigned ids: a returned subtask satisfies the invariant exactly when
  these entries are numbers below \<open>n + i\<close>.
\<close>

theorem dependencies_below_id_in_fallbacks:
  "elems (getProp (fallbackResponse E m path) ''tasks'') = map (fallbackTask E) [1 .. m] \<and>
   (\<forall>i. getProp (fallbackTask E i) ''id'' = JNum i \<and>
        depsOf (fallbackTask E i) = (if 1 < i then [JNum (i - 1)] else []) \<and>
        depsBelowId (fallbackTask E i)) \<and>
   list_all depsBelowId (elems (getProp (fallbackResponse E m path) ''tasks'')) \<and>
   list_all (\<lambda>y. depsOf y = [] \<and> depsBelowId y) (fallbackSubtasks E n c p) \<and>
   (generateContent E (length (calls w))
      (fullPrompt (systemPrompt E k prdPath kb) kb k prdContent) = Inr reply \<and>
    repliedObject E reply v \<and> getProp v ''tasks'' = JArr ts ps \<longrightarrow>
      (\<exists>r w'. callGemini (Suc (Suc (Suc fuel))) E prdContent prdPath k retryCount kb w = (Returned r, w') \<and>
         elems (getProp r ''tasks'') = ts \<and>
         list_all depsBelowId (elems (getProp r ''tasks'')) = list_all depsBelowId ts)) \<and>
   (repliedArray E text xs \<and> list_all isObject xs \<longrightarrow>
      (\<exists>ys. fst (parseSubtasksFromText E text n c p) = JArr ys [] \<and> length ys = length xs \<and>
         (\<forall>i<length xs.
            depsOf (ys ! i) = map coerceDep (depsOf (xs ! i)) \<and>
            depsBelowId (ys ! i) =
              list_all (\<lambda>d. below (coerceDep d) (JNum (n + int i))) (depsOf (xs ! i)))))"
proof -
  have a0: "elems (getProp (fallbackResponse E m path) ''tasks'') = map (fallbackTask E) [1 .. m]"
    by (rule fallbackResponse_tasks)
  have a1: "\<forall>i. getProp (fallbackTask E i) ''id'' = JNum i \<and>
        depsOf (fallbackTask E i) = (if 1 < i then [JNum (i - 1)] else []) \<and>
        depsBelowId (fallbackTask E i)"
    using fallbackTask_deps fallbackTask_depsBelowId by blast
  have a: "list_all depsBelowId (elems (getProp (fallbackResponse E m path) ''tasks''))"
    by (simp add: a0 list_all_iff fallbackTask_depsBelowId)
  have b: "list_all (\<lambda>y. depsOf y = [] \<and> depsBelowId y) (fallbackSubtasks E n c p)"
    by (simp add: fallbackSubtasks_def list_all_iff fallbackSubtask_deps fallbackSubtask_depsBelowId)
  have d: "\<exists>r w'. callGemini (Suc (Suc (Suc fuel))) E prdContent prdPath k retryCount kb w = (Returned r, w') \<and>
         elems (getProp r ''tasks'') = ts \<and>
         list_all depsBelowId (elems (getProp r ''tasks'')) = list_all depsBelowId ts"
    if g: "generateContent E (length (calls w))
             (fullPrompt (systemPrompt E k prdPath kb) kb k prdContent) = Inr reply"
      and ro: "repliedObject E reply v" and tv: "getProp v ''tasks'' = JArr ts ps"
  proof -
    let ?meta = "JObj [(''projectName'', JStr ''PRD Implementation''),
                       (''totalTasks'', JNum (int (length ts))),
                       (''sourceFile'', JStr prdPath),
                       (''generatedAt'', JStr (today E))]"
    let ?r = "if \<not> truthy (getProp v ''metadata'') then setProp v ''metadata'' ?meta else v"
    from processTry_parsed [OF ro tv, of k prdPath] obtain l where
      pt: "processTry E reply k prdPath = (Inr ?r, l)" by simp
    from callGemini_returns [OF g pt, of fuel retryCount] obtain w' where
      c: "callGemini (Suc (Suc (Suc fuel))) E prdContent prdPath k retryCount kb w = (Returned ?r, w')"
      by blast
    have obj: "isObject v" using tv by (cases v) simp_all
    have "getProp ?r ''tasks'' = JArr ts ps"
      using tv obj by (simp add: getProp_setProp)
    then have "elems (getProp ?r ''tasks'') = ts" by (simp add: elems_def)
    with c show ?thesis by (metis (no_types, lifting))
  qed
  have c: "\<exists>ys. fst (parseSubtasksFromText E text n c p) = JArr ys [] \<and> length ys = length xs \<and>
         (\<forall>i<length xs.
            depsOf (ys ! i) = map coerceDep (depsOf (xs ! i)) \<and>
            depsBelowId (ys ! i) =
              list_all (\<lambda>d. below (coerceDep d) (JNum (n + int i))) (depsOf (xs ! i)))"
    if h: "repliedArray E text xs" "list_all isObject xs"
  proof -
    from parseSubtasksFromText_obj [OF h, of n c p] obtain ys L where
      r: "parseSubtasksFromText E text n c p = (JArr ys [], L)" and
      len: "length ys = length xs" and
      each: "\<forall>j<length xs. \<exists>l. normalizeSubtask E p n (xs ! j) j = (Inr (ys ! j), l) \<and> set l \<subseteq> set L"
      by blast
    have "depsOf (ys ! i) = map coerceDep (depsOf (xs ! i)) \<and>
          depsBelowId (ys ! i) =
            list_all (\<lambda>d. below (coerceDep d) (JNum (n + int i))) (depsOf (xs ! i))"
      if i: "i < length xs" for i
    proof -
      have obj: "isObject (xs ! i)" using h(2) i by (simp add: list_all_length)
      from each i obtain l where ni: "normalizeSubtask E p n (xs ! i) i = (Inr (ys ! i), l)" by blast
      have d: "depsOf (ys ! i) = map coerceDep (depsOf (xs ! i))"
        using normalizeSubtask_deps [OF obj ni]
        by (cases "getProp (xs ! i) ''dependencies''") (simp_all add: depsOf_def)
      have "getProp (ys ! i) ''id'' = JNum (n + int i)"
        by (rule normalizeSubtask_id [OF obj ni])
      with d show ?thesis by (simp add: depsBelowId_def list_all_iff)
    qed
    with r len show ?thesis by simp
  qed
  from a0 a1 a b c d show ?thesis by blast
qed

theorem dependencies_below_id_in_fallbacks_witness:
  "elems (getProp (fallbackResponse forwardEnv 3 ''prd.txt'') ''tasks'') = map (fallbackTask forwardEnv) [1 .. 3] \<and>
   depsOf (fallbackTask forwardEnv 1) = [] \<and> depsOf (fallbackTask forwardEnv 3) = [JNum 2] \<and>
   list_all depsBelowId (elems (getProp (fallbackResponse forwardEnv 3 ''prd.txt'') ''tasks'')) \<and>
   list_all (\<lambda>y. depsOf y = [] \<and> depsBelowId y) (fallbackSubtasks forwardEnv 1 2 (JNum 1)) \<and>
   generateContent forwardBatchEnv (length (calls emptyWorld))
     (fullPrompt (systemPrompt forwardBatchEnv 2 ''prd.txt'' None) None 2 ''Build a shop'')
     = Inr forwardBatchReply \<and>
   repliedObject forwardBatchEnv forwardBatchReply forwardBatch \<and>
   getProp forwardBatch ''tasks'' = JArr forwardSubtasks [] \<and>
   (\<exists>r w'. callGemini (Suc (Suc (Suc 0))) forwardBatchEnv ''Build a shop'' ''prd.txt'' 2 0 None emptyWorld
              = (Returned r, w') \<and>
      elems (getProp r ''tasks'') = forwardSubtasks \<and>
      \<not> list_all depsBelowId (elems (getProp r ''tasks''))) \<and>
   repliedArray forwardEnv forwardReply forwardSubtasks \<and> list_all isObject forwardSubtasks \<and>
   (\<exists>ys. fst (parseSubtasksFromText forwardEnv forwardReply 1 2 (JNum 1)) = JArr ys [] \<and>
      length ys = 2 \<and> depsOf (ys ! 0) = [JNum 2] \<and> \<not> depsBelowId (ys ! 0) \<and>
      depsOf (ys ! 1) = [] \<and> depsBelowId (ys ! 1))"
proof -
  note t = dependencies_below_id_in_fallbacks
             [of forwardEnv 3 "''prd.txt''" 1 2 "JNum 1" emptyWorld 2 "''prd.txt''" None "''Build a shop''"
                 forwardBatchReply forwardBatch forwardSubtasks "[]" 0 0 forwardReply forwardSubtasks]
  note u = dependencies_below_id_in_fallbacks
             [of forwardBatchEnv 3 "''prd.txt''" 1 2 "JNum 1" emptyWorld 2 "''prd.txt''" None "''Build a shop''"
                 forwardBatchReply forwardBatch forwardSubtasks "[]" 0 0 forwardReply forwardSubtasks]
  from t have a0: "elems (getProp (fallbackResponse forwardEnv 3 ''prd.txt'') ''tasks'') =
                     map (fallbackTask forwardEnv) [1 .. 3]"
    and a1: "\<forall>i. getProp (fallbackTask forwardEnv i) ''id'' = JNum i \<and>
        depsOf (fallbackTask forwardEnv i) = (if 1 < i then [JNum (i - 1)] else []) \<and>
        depsBelowId (fallbackTask forwardEnv i)"
    and a: "list_all depsBelowId (elems (getProp (fallbackResponse forwardEnv 3 ''prd.txt'') ''tasks''))"
    and b: "list_all (\<lambda>y. depsOf y = [] \<and> depsBelowId y) (fallbackSubtasks forwardEnv 1 2 (JNum 1))"
    by blast+
  from a1 have d1: "depsOf (fallbackTask forwardEnv 1) = []"
    and d3: "depsOf (fallbackTask forwardEnv 3) = [JNum 2]"
    by simp_all
  have g: "generateContent forwardBatchEnv (length (calls emptyWorld))
     (fullPrompt (systemPrompt forwardBatchEnv 2 ''prd.txt'' None) None 2 ''Build a shop'')
     = Inr forwardBatchReply"
    by (simp add: forwardBatchEnv_def)
  have tv: "getProp forwardBatch ''tasks'' = JArr forwardSubtasks []"
    by (simp add: forwardBatch_def)
  have nf: "\<not> list_all depsBelowId forwardSubtasks"
    by (simp add: forwardSubtasks_def depsBelowId_def depsOf_def)
  from u g forwardBatchReply_replied tv obtain r w' where
    "callGemini (Suc (Suc (Suc 0))) forwardBatchEnv ''Build a shop'' ''prd.txt'' 2 0 None emptyWorld
       = (Returned r, w')"
    "elems (getProp r ''tasks'') = forwardSubtasks"
    by blast
  with nf have batch: "\<exists>r w'. callGemini (Suc (Suc (Suc 0))) forwardBatchEnv ''Build a shop'' ''prd.txt'' 2 0 None emptyWorld
              = (Returned r, w') \<and>
      elems (getProp r ''tasks'') = forwardSubtasks \<and>
      \<not> list_all depsBelowId (elems (getProp r ''tasks''))"
    by auto
  from t forwardReply_replied forwardSubtasks_objects obtain ys where
    r: "fst (parseSubtasksFromText forwardEnv forwardReply 1 2 (JNum 1)) = JArr ys []" and
    len: "length ys = length forwardSubtasks" and
    each: "\<forall>i<length forwardSubtasks.
            depsOf (ys ! i) = map coerceDep (depsOf (forwardSubtasks ! i)) \<and>
            depsBelowId (ys ! i) =
              list_all (\<lambda>d. below (coerceDep d) (JNum (1 + int i))) (depsOf (forwardSubtasks ! i))"
    by blast
  have l2: "length forwardSubtasks = 2" by (simp add: forwardSubtasks_def)
  from each l2 have e0: "depsOf (ys ! 0) = map coerceDep (depsOf (forwardSubtasks ! 0)) \<and>
            depsBelowId (ys ! 0) =
              list_all (\<lambda>d. below (coerceDep d) (JNum (1 + int 0))) (depsOf (forwardSubtasks ! 0))"
    by simp
  from each l2 have e1: "depsOf (ys ! 1) = map coerceDep (depsOf (forwardSubtasks ! 1)) \<and>
            depsBelowId (ys ! 1) =
              list_all (\<lambda>d. below (coerceDep d) (JNum (1 + int 1))) (depsOf (forwardSubtasks ! 1))"
    by simp
  from e0 have f0: "depsOf (ys ! 0) = [JNum 2] \<and> \<not> depsBelowId (ys ! 0)"
    by (simp add: forwardSubtasks_def depsOf_def)
  from e1 have f1: "depsOf (ys ! 1) = [] \<and> depsBelowId (ys ! 1)"
    by (simp add: forwardSubtasks_def depsOf_def)
  from r len l2 f0 f1 have sub: "\<exists>ys. fst (parseSubtasksFromText forwardEnv forwardReply 1 2 (JNum 1)) = JArr ys [] \<and>
      length ys = 2 \<and> depsOf (ys ! 0) = [JNum 2] \<and> \<not> depsBelowId (ys ! 0) \<and>
      depsOf (ys ! 1) = [] \<and> depsBelowId (ys ! 1)"
    by auto
  from a0 d1 d3 a b g forwardBatchReply_replied tv batch forwardReply_replied forwardSubtasks_objects sub
  show ?thesis by blast
qed

subsection \<open>Dependency coercion\<close>

text \<open>
  C6. In a reconciled reply, a subtask whose \<open>dependencies\<close> were \<open>["1", 2]\<close> has the
  dependencies \<open>[1, 2]\<close>, and a subtask whose \<open>dependencies\<close> were absent or not an array has
  the empty list.
\<close>

theorem dependencies_coerced:
  assumes "repliedArray E text xs" and "list_all isObject xs" and "i < length xs"
  shows "\<exists>ys. fst (parseSubtasksFromText E text n expectedCount parentTaskId) = JArr ys [] \<and>
     length ys = length xs \<and>
     ((\<exists>ps. getProp (xs ! i) ''dependencies'' = JArr [JStr ''1'', JNum 2] ps) \<longrightarrow>
        getProp (ys ! i) ''dependencies'' = JArr [JNum 1, JNum 2] []) \<and>
     (\<not> isArray (getProp (xs ! i) ''dependencies'') \<longrightarrow>
        getProp (ys ! i) ''dependencies'' = JArr [] [])"
proof -
  from parseSubtasksFromText_obj [OF assms(1,2), of n expectedCount parentTaskId] obtain ys L where
    r: "parseSubtasksFromText E text n expectedCount parentTaskId = (JArr ys [], L)" and
    len: "length ys = length xs" and
    each: "\<forall>j<length xs. \<exists>l. normalizeSubtask E parentTaskId n (xs ! j) j = (Inr (ys ! j), l) \<and> set l \<subseteq> set L"
    by blast
  have obj: "isObject (xs ! i)"
    using assms(2,3) by (simp add: list_all_length)
  from each assms(3) obtain l where "normalizeSubtask E parentTaskId n (xs ! i) i = (Inr (ys ! i), l)"
    by blast
  from normalizeSubtask_deps [OF obj this]
  have d: "getProp (ys ! i) ''dependencies'' =
     (case getProp (xs ! i) ''dependencies'' of JArr ds ps \<Rightarrow> JArr (map coerceDep ds) [] | _ \<Rightarrow> JArr [] [])" .
  have one: "parseInt10 ''1'' = JNum 1"
    by (simp add: parseInt10_def isWhiteSpace_def isDigit_def)
  have a: "getProp (ys ! i) ''dependencies'' = JArr [JNum 1, JNum 2] []"
    if "\<exists>ps. getProp (xs ! i) ''dependencies'' = JArr [JStr ''1'', JNum 2] ps"
    using that d one by auto
  have b: "getProp (ys ! i) ''dependencies'' = JArr [] []"
    if "\<not> isArray (getProp (xs ! i) ''dependencies'')"
    using that d by (cases "getProp (xs ! i) ''dependencies''") simp_all
  from r len a b show ?thesis by auto
qed

theorem dependencies_coerced_witness:
  "repliedArray exampleEnv exampleReply exampleSubtasks \<and> list_all isObject exampleSubtasks \<and>
   (\<exists>ps. getProp (exampleSubtasks ! 0) ''dependencies'' = JArr [JStr ''1'', JNum 2] ps) \<and>
   \<not> isArray (getProp (exampleSubtasks ! 1) ''dependencies'') \<and>
   (\<exists>ys. fst (parseSubtasksFromText exampleEnv exampleReply 4 3 (JNum 9)) = JArr ys [] \<and>
      getProp (ys ! 0) ''dependencies'' = JArr [JNum 1, JNum 2] [] \<and>
      getProp (ys ! 1) ''dependencies'' = JArr [] [])"
proof -
  have h0: "(0::nat) < length exampleSubtasks" and h1: "(1::nat) < length exampleSubtasks"
    by (simp_all add: exampleSubtasks_def)
  have d0: "\<exists>ps. getProp (exampleSubtasks ! 0) ''dependencies'' = JArr [JStr ''1'', JNum 2] ps"
    by (simp add: exampleSubtasks_def)
  have d1: "\<not> isArray (getProp (exampleSubtasks ! 1) ''dependencies'')"
    by (simp add: exampleSubtasks_def)
  from dependencies_coerced [OF exampleReply_replied exampleSubtasks_objects h0, of 4 3 "JNum 9"]
       dependencies_coerced [OF exampleReply_replied exampleSubtasks_objects h1, of 4 3 "JNum 9"]
       d0 d1 exampleReply_replied exampleSubtasks_objects
  show ?thesis by (metis jsval.inject(4))
qed

subsection \<open>Bilingual repair\<close>

text \<open>
  C7. Under bilingual mode, a subtask of a reconciled reply whose primary field (title,
  description, details or testStrategy) is a non-empty string and whose paired secondary
  field is absent gets the empty string there, and the warning is logged; the \<open>try\<close> block
  does not fail. With bilingual mode off the secondary field stays absent.
\<close>

theorem bilingual_repair:
  assumes "repliedArray E text xs" and "list_all isObject xs" and "i < length xs"
    and "(f, t) \<in> set transPairs"
    and "getProp (xs ! i) f = JStr s" and "s \<noteq> []"
    and "getProp (xs ! i) t = JUndefined"
  shows "\<exists>ys L. parseSubtasksTry E text n expectedCount parentTaskId = (Inr (JArr ys []), L) \<and>
     parseSubtasksFromText E text n expectedCount parentTaskId = (JArr ys [], L) \<and>
     length ys = length xs \<and>
     (useChinese E \<longrightarrow>
        getProp (ys ! i) t = JStr [] \<and>
        (Warn, ''Missing '' @ t @ '' for subtask ${subtask.id}, using empty value'',
         [LVal (JNum (n + int i))]) \<in> set L) \<and>
     (\<not> useChinese E \<longrightarrow> getProp (ys ! i) t = JUndefined)"
proof -
  from parseSubtasksTry_obj [OF assms(1,2), of n expectedCount parentTaskId] obtain ys L where
    r: "parseSubtasksTry E text n expectedCount parentTaskId = (Inr (JArr ys []), L)" and
    len: "length ys = length xs" and
    each: "\<forall>j<length xs. \<exists>l. normalizeSubtask E parentTaskId n (xs ! j) j = (Inr (ys ! j), l) \<and> set l \<subseteq> set L"
    by blast
  have r': "parseSubtasksFromText E text n expectedCount parentTaskId = (JArr ys [], L)"
    by (simp add: parseSubtasksFromText_def r)
  have obj: "isObject (xs ! i)"
    using assms(2,3) by (simp add: list_all_length)
  from each assms(3) obtain l where
    ni: "normalizeSubtask E parentTaskId n (xs ! i) i = (Inr (ys ! i), l)" and sub: "set l \<subseteq> set L"
    by blast
  from normalizeSubtask_core [OF obj, of E parentTaskId n i] ni obtain s4 l1 where
    y: "ys ! i = fst (transChain E s4)" and l: "l = l1 @ snd (transChain E s4)" and
    o4: "isObject s4" and id4: "getProp s4 ''id'' = JNum (n + int i)" and
    k4: "\<forall>k. k \<notin> set [''id'', ''dependencies'', ''status'', ''parentTaskId''] \<longrightarrow>
            getProp s4 k = getProp (xs ! i) k"
    by auto
  from assms(4) have "f \<notin> set [''id'', ''dependencies'', ''status'', ''parentTaskId'']"
    and "t \<notin> set [''id'', ''dependencies'', ''status'', ''parentTaskId'']"
    by (auto simp: transPairs_def)
  with k4 assms(5,7) have f4: "getProp s4 f = JStr s" and t4: "getProp s4 t = JUndefined"
    by simp_all
  have on: "getProp (ys ! i) t = JStr [] \<and>
        (Warn, ''Missing '' @ t @ '' for subtask ${subtask.id}, using empty value'',
         [LVal (JNum (n + int i))]) \<in> set L" if "useChinese E"
    using transChain_on [OF that o4 assms(4)] f4 t4 id4 assms(6) y l sub by auto
  have off: "getProp (ys ! i) t = JUndefined" if "\<not> useChinese E"
    using transChain_off [OF that, of s4] y t4 by simp
  from r r' len on off show ?thesis by blast
qed

lemma exampleSubtasks_title0:
  "(0::nat) < length exampleSubtasks \<and> (''title'', ''titleTrans'') \<in> set transPairs \<and>
   getProp (exampleSubtasks ! 0) ''title'' = JStr ''A'' \<and> ''A'' \<noteq> [] \<and>
   getProp (exampleSubtasks ! 0) ''titleTrans'' = JUndefined"
  by (simp add: exampleSubtasks_def transPairs_def)

lemma exampleReply_replied_off:
  "repliedArray (exampleEnv\<lparr>useChinese := False\<rparr>) exampleReply exampleSubtasks"
  by code_simp

theorem bilingual_repair_witness:
  "repliedArray exampleEnv exampleReply exampleSubtasks \<and> list_all isObject exampleSubtasks \<and>
   (0::nat) < length exampleSubtasks \<and> (''title'', ''titleTrans'') \<in> set transPairs \<and>
   getProp (exampleSubtasks ! 0) ''title'' = JStr ''A'' \<and> ''A'' \<noteq> [] \<and>
   getProp (exampleSubtasks ! 0) ''titleTrans'' = JUndefined \<and>
   useChinese exampleEnv \<and> \<not> useChinese (exampleEnv\<lparr>useChinese := False\<rparr>) \<and>
   (\<exists>ys L. parseSubtasksFromText exampleEnv exampleReply 4 3 (JNum 9) = (JArr ys [], L) \<and>
      getProp (ys ! 0) ''titleTrans'' = JStr [] \<and>
      (Warn, ''Missing titleTrans for subtask ${subtask.id}, using empty value'', [LVal (JNum 4)]) \<in> set L) \<and>
   (\<exists>ys L. parseSubtasksFromText (exampleEnv\<lparr>useChinese := False\<rparr>) exampleReply 4 3 (JNum 9)
        = (JArr ys [], L) \<and>
      getProp (ys ! 0) ''titleTrans'' = JUndefined)"
proof -
  note h = exampleSubtasks_title0
  have on: "useChinese exampleEnv" by (simp add: exampleEnv_def)
  have off: "\<not> useChinese (exampleEnv\<lparr>useChinese := False\<rparr>)" by simp
  from h have h3: "(0::nat) < length exampleSubtasks"
    and h4: "(''title'', ''titleTrans'') \<in> set transPairs"
    and h5: "getProp (exampleSubtasks ! 0) ''title'' = JStr ''A''"
    and h6: "''A'' \<noteq> []"
    and h7: "getProp (exampleSubtasks ! 0) ''titleTrans'' = JUndefined"
    by blast+
  from bilingual_repair [OF exampleReply_replied exampleSubtasks_objects h3 h4 h5 h6 h7, of 4 3 "JNum 9"] on
  have a: "\<exists>ys L. parseSubtasksFromText exampleEnv exampleReply 4 3 (JNum 9) = (JArr ys [], L) \<and>
      getProp (ys ! 0) ''titleTrans'' = JStr [] \<and>
      (Warn, ''Missing titleTrans for subtask ${subtask.id}, using empty value'', [LVal (JNum 4)]) \<in> set L"
    by auto
  from bilingual_repair [OF exampleReply_replied_off exampleSubtasks_objects h3 h4 h5 h6 h7, of 4 3 "JNum 9"] off
  have b: "\<exists>ys L. parseSubtasksFromText (exampleEnv\<lparr>useChinese := False\<rparr>) exampleReply 4 3 (JNum 9)
        = (JArr ys [], L) \<and> getProp (ys ! 0) ''titleTrans'' = JUndefined"
    by auto
  from a b h on off exampleReply_replied exampleSubtasks_objects show ?thesis by blast
qed

subsection \<open>Dependencies that are not numbers\<close>

text \<open>
  C9. Every string entry of a reply's \<open>dependencies\<close> is replaced by what \<open>parseInt\<close> makes
  of it, numeric-looking or not: the list keeps its length, and an entry without any
  digit (such as \<open>"a"\<close>) becomes \<open>NaN\<close>, so that reconciled dependencies need not be integers.
\<close>

theorem non_numeric_dependency_becomes_NaN:
  assumes "repliedArray E text xs" and "list_all isObject xs" and "i < length xs"
    and "getProp (xs ! i) ''dependencies'' = JArr ds ps" and "j < length ds" and "ds ! j = JStr s"
  shows "\<exists>ys ds'. fst (parseSubtasksFromText E text n expectedCount parentTaskId) = JArr ys [] \<and>
     getProp (ys ! i) ''dependencies'' = JArr ds' [] \<and> length ds' = length ds \<and>
     ds' ! j = parseInt10 s \<and>
     (list_all (\<lambda>c. \<not> isDigit c) s \<longrightarrow> ds' ! j = JNaN)"
proof -
  from parseSubtasksFromText_obj [OF assms(1,2), of n expectedCount parentTaskId] obtain ys L where
    r: "parseSubtasksFromText E text n expectedCount parentTaskId = (JArr ys [], L)" and
    each: "\<forall>j<length xs. \<exists>l. normalizeSubtask E parentTaskId n (xs ! j) j = (Inr (ys ! j), l) \<and> set l \<subseteq> set L"
    by blast
  have obj: "isObject (xs ! i)"
    using assms(2,3) by (simp add: list_all_length)
  from each assms(3) obtain l where "normalizeSubtask E parentTaskId n (xs ! i) i = (Inr (ys ! i), l)"
    by blast
  from normalizeSubtask_deps [OF obj this] assms(4)
  have d: "getProp (ys ! i) ''dependencies'' = JArr (map coerceDep ds) []" by simp
  have e: "map coerceDep ds ! j = parseInt10 s"
    using assms(5,6) by simp
  have "map coerceDep ds ! j = JNaN" if "list_all (\<lambda>c. \<not> isDigit c) s"
    using e parseInt10_no_digit [OF that] by simp
  with r d e show ?thesis by auto
qed

theorem non_numeric_dependency_becomes_NaN_witness:
  "repliedArray exampleEnv exampleReply exampleSubtasks \<and> list_all isObject exampleSubtasks \<and>
   (2::nat) < length exampleSubtasks \<and>
   getProp (exampleSubtasks ! 2) ''dependencies'' = JArr [JStr ''a''] [] \<and>
   (0::nat) < length [JStr ''a''] \<and> [JStr ''a''] ! 0 = JStr ''a'' \<and>
   list_all (\<lambda>c. \<not> isDigit c) ''a'' \<and>
   (\<exists>ys. fst (parseSubtasksFromText exampleEnv exampleReply 4 3 (JNum 9)) = JArr ys [] \<and>
      getProp (ys ! 2) ''dependencies'' = JArr [JNaN] [])"
proof -
  have h3: "(2::nat) < length exampleSubtasks" by (simp add: exampleSubtasks_def)
  have h4: "getProp (exampleSubtasks ! 2) ''dependencies'' = JArr [JStr ''a''] []"
    by (simp add: exampleSubtasks_def)
  have h5: "(0::nat) < length [JStr ''a'']" by simp
  have h6: "[JStr ''a''] ! 0 = JStr ''a''" by simp
  have nd: "list_all (\<lambda>c. \<not> isDigit c) ''a''" by (simp add: isDigit_def)
  from non_numeric_dependency_becomes_NaN
         [OF exampleReply_replied exampleSubtasks_objects h3 h4 h5 h6, of 4 3 "JNum 9"] nd
  obtain ys ds' where
    r: "fst (parseSubtasksFromText exampleEnv exampleReply 4 3 (JNum 9)) = JArr ys []" and
    d: "getProp (ys ! 2) ''dependencies'' = JArr ds' []" and
    len: "length ds' = length [JStr ''a'']" and nan: "ds' ! 0 = JNaN"
    by blast
  from len nan have "ds' = [JNaN]" by (cases ds') auto
  with r d h3 h4 h5 h6 nd exampleReply_replied exampleSubtasks_objects show ?thesis by blast
qed

subsection \<open>Parse failures\<close>

text \<open>
  C2 describes the retry counter of \<open>processClaudeResponse\<close> as the code comments it; the
  code does not get there. The second parse failure calls \<open>callGemini\<close>, whose
  \<open>handleRequest\<close> starts \<open>processClaudeResponse\<close> again with the counter back at 0, so
  the branch that builds the fallback is never reached: when every answer of the provider
  is malformed the call does not return, whatever the fuel, and the number of requests
  sent grows with the fuel without bound.
\<close>

theorem malformed_replies_never_fall_back:
  assumes "repliesMalformed E numTasks prdPath"
  shows "fst (callGemini fuel E prdContent prdPath numTasks retryCount kb w) = OutOfFuel \<and>
     length (calls (snd (callGemini (4 * k + 2) E prdContent prdPath numTasks retryCount kb w))) =
       length (calls w) + k + 1"
  using never_returns [OF assms] calls_grow [OF assms] by blast

theorem malformed_replies_never_fall_back_witness:
  "repliesMalformed alwaysMalformed 3 ''prd.txt'' \<and>
   fst (callGemini 1000 alwaysMalformed ''Build a shop'' ''prd.txt'' 3 0 None emptyWorld) = OutOfFuel \<and>
   length (calls (snd (callGemini (4 * 100 + 2) alwaysMalformed ''Build a shop'' ''prd.txt'' 3 0 None
                         emptyWorld))) =
     length (calls emptyWorld) + 100 + 1"
  using malformed_replies_never_fall_back
          [OF alwaysMalformed_malformed, of 1000 "''Build a shop''" 0 None emptyWorld 100]
        alwaysMalformed_malformed
  by blast

text \<open>
  The fallback of \<open>processClaudeResponse\<close> exists, and a direct call with the counter at 2
  returns it; no call that starts at \<open>callGemini\<close> passes a counter above 1.
\<close>

lemma fallback_only_on_direct_call:
  assumes "isl (fst (processTry E t n path))" and "2 \<le> rc"
  shows "fst (processClaudeResponse (Suc fuel) E t n rc prd path w) = Returned (fallbackResponse E n path)"
proof -
  from assms(1) obtain e l where pt: "processTry E t n path = (Inl e, l)"
    by (cases "processTry E t n path") (auto simp: isl_def)
  with assms(2) show ?thesis by (simp add: Let_def)
qed

subsection \<open>Provider failures\<close>

text \<open>
  C4 describes what the retry test of \<open>callGemini\<close> is written for; the code does less.
  \<open>handleRequest\<close> replaces the provider's error by a new error carrying only the user
  message, so the test never sees \<open>details.code\<close>, and the user messages for an exhausted
  quota and for a timeout contain neither "timeout" nor "network". Such a failure of the
  first request therefore ends the call: one request, no wait, the error thrown.
\<close>

theorem quota_and_timeout_not_retried:
  assumes "generateContent E (length (calls w))
             (fullPrompt (systemPrompt E numTasks prdPath kb) kb numTasks prdContent) = Inl error"
    and "details error = Some (Some ''RESOURCE_EXHAUSTED'') \<or>
         details error = None \<and> str_includes (toLowerCase (message error)) ''timeout''"
  shows "\<exists>w'. callGemini (Suc (Suc fuel)) E prdContent prdPath numTasks 0 kb w =
           (Thrown (newError (''Error communicating with Gemini: '' @ handleGeminiError error)), w') \<and>
     calls w' = calls w @ [fullPrompt (systemPrompt E numTasks prdPath kb) kb numTasks prdContent] \<and>
     sleeps w' = sleeps w"
proof -
  let ?w0 = "addLog (Info, ''Calling Gemini...'', []) w"
  let ?sp = "systemPrompt E numTasks prdPath kb"
  let ?um = "handleGeminiError error"
  have "generateContent E (length (calls ?w0)) (fullPrompt ?sp kb numTasks prdContent) = Inl error"
    using assms(1) by simp
  from handleRequest_provider_error [OF this, of fuel prdPath] obtain w1 where
    h: "handleRequest (Suc fuel) E prdContent prdPath numTasks ?sp kb ?w0 = (Thrown (newError ?um), w1)" and
    c1: "calls w1 = calls w @ [fullPrompt ?sp kb numTasks prdContent]" and s1: "sleeps w1 = sleeps w"
    by auto
  from assms(2) have um:
    "?um = ''Gemini quota has been exhausted. Please check your API quota and try again later.'' \<or>
     ?um = ''The request to Gemini timed out. Please try again.''"
    by (auto simp add: handleGeminiError_def)
  with quota_message_not_retried timeout_message_not_retried
  have no: "\<not> str_includes (toLowerCase ?um) ''timeout'' \<and> \<not> str_includes (toLowerCase ?um) ''network''"
    by auto
  then have nr: "\<not> (0 < (2::int) \<and> (details (newError ?um) = Some (Some ''RESOURCE_EXHAUSTED'') \<or>
                 str_includes (toLowerCase (message (newError ?um))) ''timeout'' \<or>
                 str_includes (toLowerCase (message (newError ?um))) ''network''))"
    by (simp add: newError_def)
  have again: "handleGeminiError (newError ?um) = ''Error communicating with Gemini: '' @ ?um"
    using no by (simp add: handleGeminiError_def newError_def)
  from callGemini_rethrows [OF h nr] again c1 s1 show ?thesis by auto
qed

theorem quota_and_timeout_not_retried_witness:
  "generateContent (failsOnce quotaError) (length (calls emptyWorld))
     (fullPrompt (systemPrompt (failsOnce quotaError) 3 ''prd.txt'' None) None 3 ''Build a shop'') = Inl quotaError \<and>
   details quotaError = Some (Some ''RESOURCE_EXHAUSTED'') \<and>
   generateContent (failsOnce quotaError) 1
     (fullPrompt (systemPrompt (failsOnce quotaError) 3 ''prd.txt'' None) None 3 ''Build a shop'') = Inr tasksReply \<and>
   (\<exists>w'. callGemini 10 (failsOnce quotaError) ''Build a shop'' ''prd.txt'' 3 0 None emptyWorld =
           (Thrown (newError (''Error communicating with Gemini: '' @ handleGeminiError quotaError)), w') \<and>
      length (calls w') = 1 \<and> sleeps w' = [])"
proof -
  let ?p = "fullPrompt (systemPrompt (failsOnce quotaError) 3 ''prd.txt'' None) None 3 ''Build a shop''"
  have h1: "generateContent (failsOnce quotaError) (length (calls emptyWorld)) ?p = Inl quotaError"
    by (simp add: failsOnce_def emptyWorld_def)
  have d: "details quotaError = Some (Some ''RESOURCE_EXHAUSTED'')"
    by (simp add: quotaError_def)
  then have h2: "details quotaError = Some (Some ''RESOURCE_EXHAUSTED'') \<or>
         details quotaError = None \<and> str_includes (toLowerCase (message quotaError)) ''timeout''" ..
  have later: "generateContent (failsOnce quotaError) 1 ?p = Inr tasksReply"
    by (simp add: failsOnce_def)
  have ten: "(10::nat) = Suc (Suc 8)" by simp
  from quota_and_timeout_not_retried [OF h1 h2, of 8] obtain w' where
    "callGemini (Suc (Suc 8)) (failsOnce quotaError) ''Build a shop'' ''prd.txt'' 3 0 None emptyWorld =
           (Thrown (newError (''Error communicating with Gemini: '' @ handleGeminiError quotaError)), w')"
    "calls w' = calls emptyWorld @ [?p]" "sleeps w' = sleeps emptyWorld"
    by blast
  then have "callGemini 10 (failsOnce quotaError) ''Build a shop'' ''prd.txt'' 3 0 None emptyWorld =
           (Thrown (newError (''Error communicating with Gemini: '' @ handleGeminiError quotaError)), w') \<and>
      length (calls w') = 1 \<and> sleeps w' = []"
    unfolding ten by (simp add: emptyWorld_def)
  with h1 d later show ?thesis by blast
qed

text \<open>
  The rest of C4 holds at these inputs: a network error is retried after 5 s and after
  10 s, and a permission error ends the call at once. (What decides is the user message:
  any error whose user message contains "timeout" or "network" is retried.)
\<close>

lemma network_error_is_retried:
  "outcomeAndEffects (callGemini 10 (failsTwice networkError) ''Build a shop'' ''prd.txt'' 0 0 None emptyWorld) =
     (Returned (JObj [(''tasks'', JArr [] []),
                      (''metadata'', JObj [(''projectName'', JStr ''PRD Implementation''),
                                           (''totalTasks'', JNum 0),
                                           (''sourceFile'', JStr ''prd.txt''),
                                           (''generatedAt'', JStr ''2025-01-01'')])]),
      3, [5000, 10000])"
  by code_simp

lemma permission_error_is_terminal:
  "outcomeAndEffects (callGemini 10 (failsTwice permissionError) ''Build a shop'' ''prd.txt'' 0 0 None emptyWorld) =
     (Thrown (newError ''Error communicating with Gemini: Permission denied accessing Gemini API. Please check your API key and permissions.''),
      1, [])"
  by code_simp

subsection \<open>Count mismatch and metadata\<close>

text \<open>
  C8, as stated, fails: asked for 5 tasks, the provider answers with 4 tasks and a metadata
  object of its own that says 5 (the prompt tells it to write the requested number there).
  The batch is returned as parsed, with \<open>totalTasks\<close> 5 for 4 tasks.
\<close>

theorem totalTasks_counterexample:
  "fst (callGemini 3 countedEnv ''Build a shop'' ''prd.txt'' 5 0 None emptyWorld) = Returned countedBatch \<and>
   length (elems (getProp countedBatch ''tasks'')) = 4 \<and>
   \<not> totalTasksIsCount countedBatch"
proof -
  have g: "generateContent countedEnv (length (calls emptyWorld))
             (fullPrompt (systemPrompt countedEnv 5 ''prd.txt'' None) None 5 ''Build a shop'') = Inr countedReply"
    by (simp add: countedEnv_def)
  have t: "getProp countedBatch ''tasks'' = JArr fourTasks []"
    by (simp add: countedBatch_def)
  have m: "truthy (getProp countedBatch ''metadata'')"
    by (simp add: countedBatch_def)
  have three: "(3::nat) = Suc (Suc (Suc 0))" by simp
  from processTry_parsed [OF countedReply_replied t, of 5 "''prd.txt''"] m
  obtain l where "processTry countedEnv countedReply 5 ''prd.txt'' = (Inr countedBatch, l)"
    by simp
  from callGemini_returns [OF g this, of 0 0]
  have a: "fst (callGemini 3 countedEnv ''Build a shop'' ''prd.txt'' 5 0 None emptyWorld) = Returned countedBatch"
    unfolding three by auto
  have b: "length (elems (getProp countedBatch ''tasks'')) = 4"
    by (simp add: countedBatch_def elems_def fourTasks_def)
  have c: "\<not> totalTasksIsCount countedBatch"
    by (simp add: totalTasksIsCount_def countedBatch_def elems_def fourTasks_def)
  from a b c show ?thesis by blast
qed

text \<open>
  C8, amended. When the provider's reply parses to a value \<open>v\<close> whose \<open>tasks\<close> is an array of
  \<open>m\<close> tasks, the decomposition returns after this one request with all \<open>m\<close> tasks,
  and logs a warning if \<open>m\<close> differs from the requested \<open>k\<close>. If the reply has no (truthy)
  \<open>metadata\<close>, the metadata is synthesized with \<open>totalTasks = m\<close>; if the reply has a
  metadata object of its own, the reply is returned unchanged, \<open>totalTasks\<close> included.
\<close>

theorem count_mismatch_is_warning:
  assumes "generateContent E (length (calls w))
             (fullPrompt (systemPrompt E k prdPath kb) kb k prdContent) = Inr text"
    and "repliedObject E text v" and "getProp v ''tasks'' = JArr ts ps"
  shows "\<exists>r w'. callGemini (Suc (Suc (Suc fuel))) E prdContent prdPath k retryCount kb w = (Returned r, w') \<and>
     length (calls w') = length (calls w) + 1 \<and>
     getProp r ''tasks'' = JArr ts ps \<and>
     (int (length ts) \<noteq> k \<longrightarrow>
        (Warn, ''Expected ${numTasks} tasks, but received ${parsedData.tasks.length}'',
         [LVal (JNum k), LVal (JNum (int (length ts)))]) \<in> set (logs w')) \<and>
     (\<not> truthy (getProp v ''metadata'') \<longrightarrow>
        getProp (getProp r ''metadata'') ''totalTasks'' = JNum (int (length ts))) \<and>
     (truthy (getProp v ''metadata'') \<longrightarrow> r = v)"
proof -
  let ?meta = "JObj [(''projectName'', JStr ''PRD Implementation''),
                     (''totalTasks'', JNum (int (length ts))),
                     (''sourceFile'', JStr prdPath),
                     (''generatedAt'', JStr (today E))]"
  let ?r = "if \<not> truthy (getProp v ''metadata'') then setProp v ''metadata'' ?meta else v"
  let ?l = "if int (length ts) \<noteq> k
      then [(Warn, ''Expected ${numTasks} tasks, but received ${parsedData.tasks.length}'',
             [LVal (JNum k), LVal (JNum (int (length ts)))])]
      else []"
  have pt: "processTry E text k prdPath = (Inr ?r, ?l)"
    by (rule processTry_parsed [OF assms(2,3)])
  from callGemini_returns [OF assms(1) pt, of fuel retryCount] obtain w' where
    c: "callGemini (Suc (Suc (Suc fuel))) E prdContent prdPath k retryCount kb w = (Returned ?r, w')" and
    cs: "calls w' = calls w @ [fullPrompt (systemPrompt E k prdPath kb) kb k prdContent]" and
    lg: "set ?l \<subseteq> set (logs w')"
    by blast
  have obj: "isObject v" using assms(3) by (cases v) simp_all
  have t: "getProp ?r ''tasks'' = JArr ts ps"
    using assms(3) obj by (simp add: getProp_setProp)
  have warn: "(Warn, ''Expected ${numTasks} tasks, but received ${parsedData.tasks.length}'',
         [LVal (JNum k), LVal (JNum (int (length ts)))]) \<in> set (logs w')" if "int (length ts) \<noteq> k"
    using lg that by simp
  have syn: "getProp (getProp ?r ''metadata'') ''totalTasks'' = JNum (int (length ts))"
    if "\<not> truthy (getProp v ''metadata'')"
    using that obj by (simp add: getProp_setProp)
  have same: "?r = v" if "truthy (getProp v ''metadata'')"
    using that by simp
  from c cs t warn syn same show ?thesis by auto
qed

theorem count_mismatch_is_warning_witness:
  "generateContent bareEnv (length (calls emptyWorld))
     (fullPrompt (systemPrompt bareEnv 5 ''prd.txt'' None) None 5 ''Build a shop'') = Inr bareReply \<and>
   repliedObject bareEnv bareReply bareBatch \<and> getProp bareBatch ''tasks'' = JArr fourTasks [] \<and>
   int (length fourTasks) \<noteq> 5 \<and> \<not> truthy (getProp bareBatch ''metadata'') \<and>
   (\<exists>r w'. callGemini (Suc (Suc (Suc 0))) bareEnv ''Build a shop'' ''prd.txt'' 5 0 None emptyWorld = (Returned r, w') \<and>
      getProp r ''tasks'' = JArr fourTasks [] \<and>
      (Warn, ''Expected ${numTasks} tasks, but received ${parsedData.tasks.length}'',
       [LVal (JNum 5), LVal (JNum 4)]) \<in> set (logs w') \<and>
      getProp (getProp r ''metadata'') ''totalTasks'' = JNum 4) \<and>
   generateContent countedEnv (length (calls emptyWorld))
     (fullPrompt (systemPrompt countedEnv 5 ''prd.txt'' None) None 5 ''Build a shop'') = Inr countedReply \<and>
   repliedObject countedEnv countedReply countedBatch \<and> getProp countedBatch ''tasks'' = JArr fourTasks [] \<and>
   truthy (getProp countedBatch ''metadata'') \<and>
   (\<exists>w'. callGemini (Suc (Suc (Suc 0))) countedEnv ''Build a shop'' ''prd.txt'' 5 0 None emptyWorld
           = (Returned countedBatch, w'))"
proof -
  have g1: "generateContent bareEnv (length (calls emptyWorld))
     (fullPrompt (systemPrompt bareEnv 5 ''prd.txt'' None) None 5 ''Build a shop'') = Inr bareReply"
    by (simp add: bareEnv_def)
  have t1: "getProp bareBatch ''tasks'' = JArr fourTasks []" by (simp add: bareBatch_def)
  have n1: "int (length fourTasks) \<noteq> 5" by (simp add: fourTasks_def)
  have l4: "int (length fourTasks) = 4" by (simp add: fourTasks_def)
  have m1: "\<not> truthy (getProp bareBatch ''metadata'')" by (simp add: bareBatch_def)
  have g2: "generateContent countedEnv (length (calls emptyWorld))
     (fullPrompt (systemPrompt countedEnv 5 ''prd.txt'' None) None 5 ''Build a shop'') = Inr countedReply"
    by (simp add: countedEnv_def)
  have t2: "getProp countedBatch ''tasks'' = JArr fourTasks []" by (simp add: countedBatch_def)
  have m2: "truthy (getProp countedBatch ''metadata'')" by (simp add: countedBatch_def)
  from count_mismatch_is_warning [OF g1 bareReply_replied t1, of 0 0] n1 m1 l4
  have a: "\<exists>r w'. callGemini (Suc (Suc (Suc 0))) bareEnv ''Build a shop'' ''prd.txt'' 5 0 None emptyWorld = (Returned r, w') \<and>
      getProp r ''tasks'' = JArr fourTasks [] \<and>
      (Warn, ''Expected ${numTasks} tasks, but received ${parsedData.tasks.length}'',
       [LVal (JNum 5), LVal (JNum 4)]) \<in> set (logs w') \<and>
      getProp (getProp r ''metadata'') ''totalTasks'' = JNum 4"
    by auto
  from count_mismatch_is_warning [OF g2 countedReply_replied t2, of 0 0] m2
  have b: "\<exists>w'. callGemini (Suc (Suc (Suc 0))) countedEnv ''Build a shop'' ''prd.txt'' 5 0 None emptyWorld
           = (Returned countedBatch, w')"
    by auto
  from a b g1 bareReply_replied t1 n1 m1 g2 countedReply_replied t2 m2 show ?thesis by blast
qed

subsection \<open>The knowledge base on a re-sent request\<close>

text \<open>
  C10. When the first request of a decomposition carried a knowledge base and its reply
  fails to parse (twice, the second time on the same text), the request that is sent next
  is built by \<open>callGemini\<close> called without the knowledge base: the first prompt contains the
  knowledge text, the second is the prompt of a request that has none.
\<close>

theorem resend_omits_knowledge_base:
  assumes "present kb"
    and "generateContent E (length (calls w))
           (fullPrompt (systemPrompt E n prdPath kb) kb n prdContent) = Inr reply"
    and "isl (fst (processTry E reply n prdPath))"
  shows "(\<exists>cs. calls (snd (callGemini (fuel + 6) E prdContent prdPath n retryCount kb w)) =
            calls w @ fullPrompt (systemPrompt E n prdPath kb) kb n prdContent
                    # fullPrompt (systemPrompt E n prdPath None) None n prdContent # cs) \<and>
     str_includes (fullPrompt (systemPrompt E n prdPath kb) kb n prdContent) (the kb) \<and>
     fullPrompt (systemPrompt E n prdPath None) None n prdContent \<noteq>
       fullPrompt (systemPrompt E n prdPath kb) kb n prdContent"
proof -
  let ?p1 = "fullPrompt (systemPrompt E n prdPath kb) kb n prdContent"
  let ?p2 = "fullPrompt (systemPrompt E n prdPath None) None n prdContent"
  let ?w0 = "addLog (Info, ''Calling Gemini...'', []) w"
  let ?w2 = "addLog (Info, ''Completed non-streaming response from Gemini API!'', [])
             ((addLog (Info,
               (if present kb
                then ''Sending request to Gemini with business knowledge context...''
                else ''Sending request to Gemini...''), []) ?w0)
              \<lparr>calls := calls ?w0 @ [?p1]\<rparr>)"
  have f: "fuel + 6 = Suc (Suc (Suc (Suc (Suc (Suc fuel)))))" by simp
  \<comment> \<open>the first request and the two failed parses\<close>
  have h: "handleRequest (Suc (Suc (Suc (Suc (Suc fuel))))) E prdContent prdPath n
             (systemPrompt E n prdPath kb) kb ?w0 =
           processClaudeResponse (Suc (Suc (Suc (Suc fuel)))) E reply n 0 prdContent prdPath ?w2"
    using assms(2) by (simp add: Let_def)
  from processClaudeResponse_resends [OF assms(3), of "Suc (Suc fuel)" prdContent ?w2] obtain w3 where
    p: "processClaudeResponse (Suc (Suc (Suc (Suc fuel)))) E reply n 0 prdContent prdPath ?w2 =
          callGemini (Suc (Suc fuel)) E prdContent prdPath n 2 None w3" and
    c3: "calls w3 = calls ?w2"
    by blast
  \<comment> \<open>the second request\<close>
  from callGemini_extends_handleRequest [of "Suc fuel" E prdContent prdPath n 2 None w3] obtain cs1 where
    e1: "calls (snd (callGemini (Suc (Suc fuel)) E prdContent prdPath n 2 None w3)) =
           calls (snd (handleRequest (Suc fuel) E prdContent prdPath n (systemPrompt E n prdPath None) None
                         (addLog (Info, ''Calling Gemini...'', []) w3))) @ cs1"
    by blast
  from handleRequest_first_call [of fuel E prdContent prdPath n "systemPrompt E n prdPath None" None
         "addLog (Info, ''Calling Gemini...'', []) w3"] obtain cs2 where
    e2: "calls (snd (handleRequest (Suc fuel) E prdContent prdPath n (systemPrompt E n prdPath None) None
                       (addLog (Info, ''Calling Gemini...'', []) w3))) =
           calls (addLog (Info, ''Calling Gemini...'', []) w3) @ ?p2 # cs2"
    by blast
  \<comment> \<open>back in the first call of \<open>callGemini\<close>\<close>
  from callGemini_extends_handleRequest
         [of "Suc (Suc (Suc (Suc (Suc fuel))))" E prdContent prdPath n retryCount kb w] obtain cs3 where
    e3: "calls (snd (callGemini (Suc (Suc (Suc (Suc (Suc (Suc fuel)))))) E prdContent prdPath n retryCount kb w)) =
           calls (snd (handleRequest (Suc (Suc (Suc (Suc (Suc fuel))))) E prdContent prdPath n
                         (systemPrompt E n prdPath kb) kb ?w0)) @ cs3"
    by blast
  have "calls (snd (callGemini (fuel + 6) E prdContent prdPath n retryCount kb w)) =
          calls w @ ?p1 # ?p2 # (cs2 @ cs1 @ cs3)"
    unfolding f e3 h p e1 e2 by (simp add: c3)
  with fullPrompt_includes_knowledge [OF assms(1)] fullPrompt_differs [OF assms(1)]
  show ?thesis by blast
qed

lemma kbEnv_first_reply:
  "generateContent kbEnv (length (calls emptyWorld))
     (fullPrompt (systemPrompt kbEnv 3 ''prd.txt'' (Some ''Orders are called baskets.''))
        (Some ''Orders are called baskets.'') 3 ''Build a shop'') = Inr ''I need more detail.''"
  by (simp add: kbEnv_def emptyWorld_def)

lemma kbEnv_first_reply_malformed:
  "isl (fst (processTry kbEnv ''I need more detail.'' 3 ''prd.txt''))"
  by (simp add: processTry_def indexOf_def)

theorem resend_omits_knowledge_base_witness:
  "present (Some ''Orders are called baskets.'') \<and>
   generateContent kbEnv (length (calls emptyWorld))
     (fullPrompt (systemPrompt kbEnv 3 ''prd.txt'' (Some ''Orders are called baskets.''))
        (Some ''Orders are called baskets.'') 3 ''Build a shop'') = Inr ''I need more detail.'' \<and>
   isl (fst (processTry kbEnv ''I need more detail.'' 3 ''prd.txt'')) \<and>
   (\<exists>cs. calls (snd (callGemini (4 + 6) kbEnv ''Build a shop'' ''prd.txt'' 3 0
                        (Some ''Orders are called baskets.'') emptyWorld)) =
      calls emptyWorld @
        fullPrompt (systemPrompt kbEnv 3 ''prd.txt'' (Some ''Orders are called baskets.''))
          (Some ''Orders are called baskets.'') 3 ''Build a shop''
        # fullPrompt (systemPrompt kbEnv 3 ''prd.txt'' None) None 3 ''Build a shop'' # cs)"
proof -
  have h1: "present (Some ''Orders are called baskets.'')" by (simp add: present_def)
  from resend_omits_knowledge_base [OF h1 kbEnv_first_reply kbEnv_first_reply_malformed, of 4 0]
       h1 kbEnv_first_reply kbEnv_first_reply_malformed
  show ?thesis by blast
qed

end
